theory Spec2Isabelle
  imports Main "HOL-Library.Word" "HOL-Library.Multiset"
begin

section \<open>Data model of aws-reservations.go\<close>

text \<open>
  Go's \<open>int\<close> is a two's complement machine integer; on the 64-bit targets the
  program is built for it has 64 bits. Addition, subtraction and negation wrap
  around, and comparisons read the value as signed (\<open>sint\<close>).
\<close>

type_synonym go_int = "64 word"

text \<open>The smallest value of \<open>int\<close>, \<open>math.MinInt64\<close>.\<close>

definition MinInt64 :: go_int where
  "MinInt64 = - 9223372036854775808"

text \<open>
  \<open>type state uint8\<close> with the constants \<open>UnknownState = iota\<close> and \<open>Active\<close>.
  \<open>UnknownState\<close> is the zero value, the one a struct literal leaves in a field
  that it does not mention.
\<close>

datatype state = UnknownState | Active

text \<open>\<open>ec2Inst\<close> describes a single ec2 instance; it is the key of the map \<open>ei\<close>.\<close>

record ec2Inst =
  Class :: string
  VPC :: bool

text \<open>
  \<open>ec2InstInfo\<close> embeds \<open>ec2Inst\<close>; the embedded struct is the field
  \<open>ec2Inst\<close> (\<open>ii.ec2Inst\<close> in the source).
\<close>

record ec2InstInfo =
  ec2Inst :: ec2Inst
  Count :: go_int
  State :: state

text \<open>\<open>rdsInst\<close> describes a single RDS instance; it is the key of the map \<open>ri\<close>.\<close>

record rdsInst =
  Class :: string
  Product :: string
  MultiAZ :: bool

record rdsInstInfo =
  rdsInst :: rdsInst
  Count :: go_int
  State :: state

subsection \<open>Raw records of the provider's SDK\<close>

text \<open>
  The SDK's types \<open>ec2.Instance\<close>, \<open>ec2.InstanceState\<close>, \<open>ec2.Reservation\<close>,
  \<open>ec2.ReservedInstances\<close>, \<open>rds.DBInstance\<close> and \<open>rds.ReservedDBInstance\<close> are
  declared outside the program. Each is a struct of nullable fields
  (\<open>aws.StringValue\<close>, \<open>aws.IntegerValue\<close>, \<open>aws.BooleanValue\<close> are pointers);
  a nil pointer is \<open>None\<close>. Only the fields that the program reads are kept.
\<close>

record ec2_InstanceState =
  Name :: "string option"

record ec2_Instance =
  InstanceType :: "string option"
  VPCID :: "string option"
  State :: "ec2_InstanceState option"

record ec2_Reservation =
  Instances :: "ec2_Instance list"

record ec2_ReservedInstances =
  InstanceType :: "string option"
  InstanceCount :: "go_int option"
  ProductDescription :: "string option"
  State :: "string option"

record rds_DBInstance =
  DBInstanceClass :: "string option"
  Engine :: "string option"
  MultiAZ :: "bool option"

record rds_ReservedDBInstance =
  DBInstanceClass :: "string option"
  ProductDescription :: "string option"
  MultiAZ :: "bool option"
  DBInstanceCount :: "go_int option"
  State :: "string option"

text \<open>
  Modelled from the spec: the values of the SDK's constants
  \<open>ec2.InstanceStateNameRunning\<close>, \<open>ec2.InstanceStateNameStopped\<close>,
  \<open>ec2.InstanceStateNameStopping\<close>, \<open>ec2.InstanceStateNameShuttingDown\<close> and
  \<open>ec2.InstanceStateNamePending\<close>, whose declarations are not among the sources.
  The spec names the states running, pending, stopping, shutting-down and stopped.
\<close>

definition InstanceStateNameRunning :: string where
  "InstanceStateNameRunning = ''running''"

definition InstanceStateNameStopped :: string where
  "InstanceStateNameStopped = ''stopped''"

definition InstanceStateNameStopping :: string where
  "InstanceStateNameStopping = ''stopping''"

definition InstanceStateNameShuttingDown :: string where
  "InstanceStateNameShuttingDown = ''shutting-down''"

definition InstanceStateNamePending :: string where
  "InstanceStateNamePending = ''pending''"

section \<open>Unpacking nullable fields\<close>

text \<open>\<open>toInt\<close> unpacks \<open>aws.IntegerValue\<close>; nil corresponds to 0.\<close>

definition toInt :: "go_int option \<Rightarrow> go_int" where
  "toInt i = (case i of None \<Rightarrow> 0 | Some v \<Rightarrow> v)"

text \<open>\<open>toStr\<close> unpacks \<open>aws.StringValue\<close>; nil corresponds to the empty string.\<close>

definition toStr :: "string option \<Rightarrow> string" where
  "toStr s = (case s of None \<Rightarrow> [] | Some v \<Rightarrow> v)"

text \<open>\<open>toBool\<close> unpacks \<open>aws.BooleanValue\<close>; nil corresponds to false.\<close>

definition toBool :: "bool option \<Rightarrow> bool" where
  "toBool b = (case b of None \<Rightarrow> False | Some v \<Rightarrow> v)"

text \<open>
  \<open>strings.Contains(s, substr)\<close> of the Go library: \<open>substr\<close> occurs at some
  position of \<open>s\<close>. The scan tries every position from the left.
\<close>

fun strings_Contains :: "string \<Rightarrow> string \<Rightarrow> bool" where
  "strings_Contains [] substr = (substr = [])"
| "strings_Contains (c # s) substr =
     (if take (length substr) (c # s) = substr then True else strings_Contains s substr)"

section \<open>Normalisation of raw records\<close>

text \<open>
  \<open>rdsiTordsii\<close> converts \<open>rds.DBInstance\<close>; count is always 1 and state is always
  \<open>Active\<close>.
\<close>

definition rdsiTordsii :: "rds_DBInstance \<Rightarrow> rdsInstInfo" where
  "rdsiTordsii r =
     \<lparr>rdsInst = \<lparr>rdsInst.Class = toStr (rds_DBInstance.DBInstanceClass r),
                  Product = toStr (Engine r),
                  MultiAZ = toBool (rds_DBInstance.MultiAZ r)\<rparr>,
      Count = 1,
      State = Active\<rparr>"

text \<open>
  \<open>rdsriTordsii\<close> converts \<open>rds.ReservedDBInstance\<close>. The struct literal leaves
  \<open>State\<close> at its zero value; the \<open>switch\<close> sets it to \<open>Active\<close> in its only case.
\<close>

definition rdsriTordsii :: "rds_ReservedDBInstance \<Rightarrow> rdsInstInfo" where
  "rdsriTordsii r =
     (let out = \<lparr>rdsInst = \<lparr>rdsInst.Class = toStr (rds_ReservedDBInstance.DBInstanceClass r),
                             Product = toStr (rds_ReservedDBInstance.ProductDescription r),
                             MultiAZ = toBool (rds_ReservedDBInstance.MultiAZ r)\<rparr>,
                 Count = toInt (DBInstanceCount r),
                 State = UnknownState\<rparr>
      in if toStr (rds_ReservedDBInstance.State r) = ''active''
         then out\<lparr>rdsInstInfo.State := Active\<rparr>
         else out)"

text \<open>
  \<open>ec2iToec2ii\<close> converts \<open>ec2.Instance\<close>. Count is always 1; the state starts as
  \<open>UnknownState\<close> and the \<open>switch\<close>, guarded by \<open>r.State != nil\<close>, sets it to
  \<open>Active\<close> for the five listed state names.
\<close>

definition ec2iToec2ii :: "ec2_Instance \<Rightarrow> ec2InstInfo" where
  "ec2iToec2ii r =
     (let out = \<lparr>ec2Inst = \<lparr>ec2Inst.Class = toStr (ec2_Instance.InstanceType r),
                             VPC = (length (toStr (VPCID r)) > 0)\<rparr>,
                 Count = 1,
                 State = UnknownState\<rparr>
      in case ec2_Instance.State r of
           None \<Rightarrow> out
         | Some st \<Rightarrow>
             (let n = toStr (Name st)
              in if n = InstanceStateNameRunning
                    \<or> n = InstanceStateNameStopped
                    \<or> n = InstanceStateNameStopping
                    \<or> n = InstanceStateNameShuttingDown
                    \<or> n = InstanceStateNamePending
                 then out\<lparr>ec2InstInfo.State := Active\<rparr>
                 else out))"

text \<open>
  \<open>ec2riToec2ii\<close> converts \<open>ec2.ReservedInstances\<close>. The literal leaves \<open>VPC\<close> and
  \<open>State\<close> at their zero values; \<open>VPC\<close> is then assigned from the product
  description and \<open>State\<close> from the reservation's state.
\<close>

definition ec2riToec2ii :: "ec2_ReservedInstances \<Rightarrow> ec2InstInfo" where
  "ec2riToec2ii r =
     (let out = \<lparr>ec2Inst = \<lparr>ec2Inst.Class = toStr (ec2_ReservedInstances.InstanceType r),
                             VPC = False\<rparr>,
                 Count = toInt (InstanceCount r),
                 State = UnknownState\<rparr>;
          out = out\<lparr>ec2Inst := (ec2Inst out)
                   \<lparr>VPC := strings_Contains
                             (toStr (ec2_ReservedInstances.ProductDescription r)) ''Amazon VPC''\<rparr>\<rparr>
      in if toStr (ec2_ReservedInstances.State r) = ''active''
         then out\<lparr>ec2InstInfo.State := Active\<rparr>
         else out)"

section \<open>Fetching the four listings\<close>

text \<open>
  A failed call of the provider's API returns a non-nil \<open>error\<close>. Go's \<open>error\<close> is
  an interface; the model keeps the message.
\<close>

datatype error = GatewayError string

text \<open>
  Each \<open>get...\<close> function takes the outcome \<open>(resp, err)\<close> of its API call:
  \<open>Inl err\<close> when \<open>err != nil\<close>, else \<open>Inr\<close> of the list in the response. It
  returns the error as it is, or the normalised records in the order of the
  response.
\<close>

definition getRunningEC2Instances :: "error + ec2_Reservation list \<Rightarrow> error + ec2InstInfo list" where
  "getRunningEC2Instances resp =
     (case resp of
        Inl err \<Rightarrow> Inl err
      | Inr Reservations \<Rightarrow> Inr (concat (map (\<lambda>r. map ec2iToec2ii (Instances r)) Reservations)))"

definition getRunningRDSInstances :: "error + rds_DBInstance list \<Rightarrow> error + rdsInstInfo list" where
  "getRunningRDSInstances resp =
     (case resp of
        Inl err \<Rightarrow> Inl err
      | Inr DBInstances \<Rightarrow> Inr (map rdsiTordsii DBInstances))"

definition getReservedRDSInstances :: "error + rds_ReservedDBInstance list \<Rightarrow> error + rdsInstInfo list" where
  "getReservedRDSInstances resp =
     (case resp of
        Inl err \<Rightarrow> Inl err
      | Inr ReservedDBInstances \<Rightarrow> Inr (map rdsriTordsii ReservedDBInstances))"

definition getReservedEC2Instances :: "error + ec2_ReservedInstances list \<Rightarrow> error + ec2InstInfo list" where
  "getReservedEC2Instances resp =
     (case resp of
        Inl err \<Rightarrow> Inl err
      | Inr ReservedInstances \<Rightarrow> Inr (map ec2riToec2ii ReservedInstances))"

section \<open>The accumulation loops of \<open>main\<close>\<close>

text \<open>
  The maps \<open>ei\<close> and \<open>ri\<close> are \<open>map[ec2Inst]int\<close> and \<open>map[rdsInst]int\<close>. Reading
  a Go map at a missing key gives the zero value; \<open>m[k] += c\<close> reads, adds
  and stores, so the key is present afterwards.
\<close>

type_synonym 'k netmap = "'k \<rightharpoonup> go_int"

definition lookup :: "'k netmap \<Rightarrow> 'k \<Rightarrow> go_int" where
  "lookup m k = (case m k of None \<Rightarrow> 0 | Some v \<Rightarrow> v)"

definition plusAssign :: "'k netmap \<Rightarrow> 'k \<Rightarrow> go_int \<Rightarrow> 'k netmap" where
  "plusAssign m k c = m(k \<mapsto> lookup m k + c)"

definition minusAssign :: "'k netmap \<Rightarrow> 'k \<Rightarrow> go_int \<Rightarrow> 'k netmap" where
  "minusAssign m k c = m(k \<mapsto> lookup m k - c)"

text \<open>The loop over \<open>runningEi\<close>: a record that is not \<open>Active\<close> is skipped by \<open>continue\<close>.\<close>

fun loopRunningEi :: "ec2Inst netmap \<Rightarrow> ec2InstInfo list \<Rightarrow> ec2Inst netmap" where
  "loopRunningEi ei [] = ei"
| "loopRunningEi ei (ii # rest) =
     (if ec2InstInfo.State ii \<noteq> Active then loopRunningEi ei rest
      else loopRunningEi (plusAssign ei (ec2Inst ii) (ec2InstInfo.Count ii)) rest)"

text \<open>The loop over \<open>runningRi\<close>.\<close>

fun loopRunningRi :: "rdsInst netmap \<Rightarrow> rdsInstInfo list \<Rightarrow> rdsInst netmap" where
  "loopRunningRi ri [] = ri"
| "loopRunningRi ri (ii # rest) =
     (if rdsInstInfo.State ii \<noteq> Active then loopRunningRi ri rest
      else loopRunningRi (plusAssign ri (rdsInst ii) (rdsInstInfo.Count ii)) rest)"

text \<open>The loop over \<open>reservedEi\<close>.\<close>

fun loopReservedEi :: "ec2Inst netmap \<Rightarrow> ec2InstInfo list \<Rightarrow> ec2Inst netmap" where
  "loopReservedEi ei [] = ei"
| "loopReservedEi ei (ii # rest) =
     (if ec2InstInfo.State ii \<noteq> Active then loopReservedEi ei rest
      else loopReservedEi (minusAssign ei (ec2Inst ii) (ec2InstInfo.Count ii)) rest)"

text \<open>The loop over \<open>reservedRi\<close>.\<close>

fun loopReservedRi :: "rdsInst netmap \<Rightarrow> rdsInstInfo list \<Rightarrow> rdsInst netmap" where
  "loopReservedRi ri [] = ri"
| "loopReservedRi ri (ii # rest) =
     (if rdsInstInfo.State ii \<noteq> Active then loopReservedRi ri rest
      else loopReservedRi (minusAssign ri (rdsInst ii) (rdsInstInfo.Count ii)) rest)"

text \<open>
  The map \<open>ei\<close> when the printing starts: empty at first, filled from the running
  instances, then the reserved ones subtracted. Likewise \<open>ri\<close>.
\<close>

definition reconcileEi :: "ec2InstInfo list \<Rightarrow> ec2InstInfo list \<Rightarrow> ec2Inst netmap" where
  "reconcileEi runningEi reservedEi = loopReservedEi (loopRunningEi Map.empty runningEi) reservedEi"

definition reconcileRi :: "rdsInstInfo list \<Rightarrow> rdsInstInfo list \<Rightarrow> rdsInst netmap" where
  "reconcileRi runningRi reservedRi = loopReservedRi (loopRunningRi Map.empty runningRi) reservedRi"

section \<open>The printing loops of \<open>main\<close>\<close>

text \<open>
  Each printing loop ranges over a map (in no fixed order) and prints one row per
  key that passes its test. A bucket is the rows of one loop: the printed key and
  the printed number. The first loop skips \<open>v < 1\<close> and prints \<open>v\<close>; the second
  skips \<open>v >= 0\<close> and prints \<open>-v\<close>. The loops over \<open>ri\<close> have the same tests.
\<close>

definition onDemand :: "'k netmap \<Rightarrow> 'k netmap" where
  "onDemand m k =
     (case m k of
        None \<Rightarrow> None
      | Some v \<Rightarrow> if sint v < 1 then None else Some v)"

definition unusedReservations :: "'k netmap \<Rightarrow> 'k netmap" where
  "unusedReservations m k =
     (case m k of
        None \<Rightarrow> None
      | Some v \<Rightarrow> if sint v \<ge> 0 then None else Some (- v))"

record report =
  onDemandEC2 :: "ec2Inst netmap"
  unusedEC2 :: "ec2Inst netmap"
  onDemandRDS :: "rdsInst netmap"
  unusedRDS :: "rdsInst netmap"

text \<open>
  \<open>main\<close> from the creation of the maps on. Its arguments are the outcomes of the
  four API calls. \<open>log.Fatal(err)\<close> ends the program with the error before
  anything is printed: the result is \<open>Inl err\<close>. Otherwise the four printing loops
  run over the finished maps.
\<close>

definition main ::
  "error + ec2_Reservation list \<Rightarrow> error + rds_DBInstance list \<Rightarrow>
   error + ec2_ReservedInstances list \<Rightarrow> error + rds_ReservedDBInstance list \<Rightarrow>
   error + report" where
  "main respRunningEi respRunningRi respReservedEi respReservedRi =
     (let ei = Map.empty; ri = Map.empty
      in (case getRunningEC2Instances respRunningEi of
            Inl err \<Rightarrow> Inl err
          | Inr runningEi \<Rightarrow>
      (let ei = loopRunningEi ei runningEi
       in (case getRunningRDSInstances respRunningRi of
             Inl err \<Rightarrow> Inl err
           | Inr runningRi \<Rightarrow>
      (let ri = loopRunningRi ri runningRi
       in (case getReservedEC2Instances respReservedEi of
             Inl err \<Rightarrow> Inl err
           | Inr reservedEi \<Rightarrow>
      (let ei = loopReservedEi ei reservedEi
       in (case getReservedRDSInstances respReservedRi of
             Inl err \<Rightarrow> Inl err
           | Inr reservedRi \<Rightarrow>
      (let ri = loopReservedRi ri reservedRi
       in Inr \<lparr>onDemandEC2 = onDemand ei,
               unusedEC2 = unusedReservations ei,
               onDemandRDS = onDemand ri,
               unusedRDS = unusedReservations ri\<rparr>)))))))))"

section \<open>Sums of active counts\<close>

text \<open>
  The specification's \<open>\<Sigma>(active Count for k)\<close> over a list of normalised
  records: the counts of the records that are \<open>Active\<close> and have the key \<open>k\<close>,
  read as signed numbers and added up as integers, without any bound.
\<close>

definition sumActiveEi :: "ec2Inst \<Rightarrow> ec2InstInfo list \<Rightarrow> int" where
  "sumActiveEi k xs =
     sum_list (map (\<lambda>ii. sint (ec2InstInfo.Count ii))
       (filter (\<lambda>ii. ec2InstInfo.State ii = Active \<and> ec2Inst ii = k) xs))"

definition sumActiveRi :: "rdsInst \<Rightarrow> rdsInstInfo list \<Rightarrow> int" where
  "sumActiveRi k xs =
     sum_list (map (\<lambda>ii. sint (rdsInstInfo.Count ii))
       (filter (\<lambda>ii. rdsInstInfo.State ii = Active \<and> rdsInst ii = k) xs))"

text \<open>
  The same counts added up with the \<open>+\<close> of \<open>int\<close>, which wraps around: what the
  loops of \<open>main\<close> accumulate. These sums serve the proofs only.
\<close>

definition wrappedSumEi :: "ec2Inst \<Rightarrow> ec2InstInfo list \<Rightarrow> go_int" where
  "wrappedSumEi k xs =
     sum_list (map ec2InstInfo.Count
       (filter (\<lambda>ii. ec2InstInfo.State ii = Active \<and> ec2Inst ii = k) xs))"

definition wrappedSumRi :: "rdsInst \<Rightarrow> rdsInstInfo list \<Rightarrow> go_int" where
  "wrappedSumRi k xs =
     sum_list (map rdsInstInfo.Count
       (filter (\<lambda>ii. rdsInstInfo.State ii = Active \<and> rdsInst ii = k) xs))"

section \<open>Normalisers\<close>

lemma take_prefix_iff: "take (length p) s = p \<longleftrightarrow> (\<exists>ss. s = p @ ss)"
proof
  assume "take (length p) s = p"
  then have "s = p @ drop (length p) s"
    by (metis append_take_drop_id)
  then show "\<exists>ss. s = p @ ss" ..
next
  assume "\<exists>ss. s = p @ ss"
  then show "take (length p) s = p" by auto
qed

lemma strings_Contains_iff:
  "strings_Contains s substr \<longleftrightarrow> (\<exists>ps ss. s = ps @ substr @ ss)"
proof (induction s)
  case Nil
  show ?case by auto
next
  case (Cons c s)
  have "(\<exists>ps ss. c # s = ps @ substr @ ss) \<longleftrightarrow>
        (\<exists>ss. c # s = substr @ ss) \<or> (\<exists>ps ss. s = ps @ substr @ ss)"
    (is "?L \<longleftrightarrow> ?P \<or> ?R")
  proof
    assume ?L
    then obtain ps ss where e: "c # s = ps @ substr @ ss" by blast
    show "?P \<or> ?R"
    proof (cases ps)
      case Nil
      with e show ?thesis by auto
    next
      case (Cons a ps')
      with e have "s = ps' @ substr @ ss" by simp
      then show ?thesis by blast
    qed
  next
    assume "?P \<or> ?R"
    then show ?L
    proof
      assume ?P
      then obtain ss where "c # s = [] @ substr @ ss" by auto
      then show ?L by blast
    next
      assume ?R
      then obtain ps ss where "c # s = (c # ps) @ substr @ ss" by auto
      then show ?L by blast
    qed
  qed
  with Cons show ?case
    by (simp only: strings_Contains.simps take_prefix_iff split: if_split) blast
qed

text \<open>
  C7. For every running-compute raw record, \<open>ec2iToec2ii\<close> gives Count 1, and the
  state \<open>Active\<close> exactly when the record has a state whose name is one of running,
  pending, stopping, shutting-down, stopped; for any other name, an absent name or
  an absent state the state is \<open>UnknownState\<close>.
\<close>

theorem ec2iToec2ii_count_and_state:
  "ec2InstInfo.Count (ec2iToec2ii r) = 1 \<and>
   ec2InstInfo.State (ec2iToec2ii r) =
     (if \<exists>st n. ec2_Instance.State r = Some st \<and> Name st = Some n \<and>
           n \<in> {''running'', ''pending'', ''stopping'', ''shutting-down'', ''stopped''}
      then Active else UnknownState)"
  by (cases "ec2_Instance.State r")
     (auto simp: ec2iToec2ii_def Let_def toStr_def InstanceStateNameRunning_def
        InstanceStateNameStopped_def InstanceStateNameStopping_def
        InstanceStateNameShuttingDown_def InstanceStateNamePending_def
        split: option.splits)

text \<open>
  C6. For every reserved-compute raw record, \<open>ec2riToec2ii\<close> gives: Count equal to
  the instance-count field, 0 when the field is absent; the state \<open>Active\<close> exactly
  when the state field is the literal "active", and \<open>UnknownState\<close> otherwise; VPC
  true exactly when the product-description field is present and has
  "Amazon VPC" as a substring.
\<close>

theorem ec2riToec2ii_count_state_vpc:
  "ec2InstInfo.Count (ec2riToec2ii r) = (case InstanceCount r of None \<Rightarrow> 0 | Some n \<Rightarrow> n) \<and>
   ec2InstInfo.State (ec2riToec2ii r) =
     (if ec2_ReservedInstances.State r = Some ''active'' then Active else UnknownState) \<and>
   (VPC (ec2Inst (ec2riToec2ii r)) \<longleftrightarrow>
     (\<exists>ps ss. ec2_ReservedInstances.ProductDescription r = Some (ps @ ''Amazon VPC'' @ ss)))"
proof -
  have c: "ec2InstInfo.Count (ec2riToec2ii r) = (case InstanceCount r of None \<Rightarrow> 0 | Some n \<Rightarrow> n)"
    by (simp add: ec2riToec2ii_def Let_def toInt_def)
  have s: "ec2InstInfo.State (ec2riToec2ii r) =
     (if ec2_ReservedInstances.State r = Some ''active'' then Active else UnknownState)"
    by (simp add: ec2riToec2ii_def Let_def toStr_def split: option.splits)
  have "VPC (ec2Inst (ec2riToec2ii r)) \<longleftrightarrow>
      strings_Contains (toStr (ec2_ReservedInstances.ProductDescription r)) ''Amazon VPC''"
    by (simp add: ec2riToec2ii_def Let_def)
  also have "\<dots> \<longleftrightarrow>
      (\<exists>ps ss. toStr (ec2_ReservedInstances.ProductDescription r) = ps @ ''Amazon VPC'' @ ss)"
    by (rule strings_Contains_iff)
  also have "\<dots> \<longleftrightarrow>
      (\<exists>ps ss. ec2_ReservedInstances.ProductDescription r = Some (ps @ ''Amazon VPC'' @ ss))"
    by (cases "ec2_ReservedInstances.ProductDescription r") (simp_all add: toStr_def)
  finally show ?thesis using c s by blast
qed

section \<open>Accumulation\<close>

lemma lookup_empty: "lookup Map.empty k = 0"
  by (simp add: lookup_def)

lemma lookup_plusAssign:
  "lookup (plusAssign m k c) k' = (if k' = k then lookup m k + c else lookup m k')"
  by (simp add: plusAssign_def lookup_def)

lemma lookup_minusAssign:
  "lookup (minusAssign m k c) k' = (if k' = k then lookup m k - c else lookup m k')"
  by (simp add: minusAssign_def lookup_def)

lemma dom_plusAssign: "dom (plusAssign m k c) = insert k (dom m)"
  by (simp add: plusAssign_def)

lemma dom_minusAssign: "dom (minusAssign m k c) = insert k (dom m)"
  by (simp add: minusAssign_def)

lemma wrappedSumEi_Nil: "wrappedSumEi k [] = 0"
  by (simp add: wrappedSumEi_def)

lemma wrappedSumEi_Cons:
  "wrappedSumEi k (ii # xs) =
     (if ec2InstInfo.State ii = Active \<and> ec2Inst ii = k then ec2InstInfo.Count ii else 0)
       + wrappedSumEi k xs"
  by (simp add: wrappedSumEi_def)

lemma wrappedSumRi_Nil: "wrappedSumRi k [] = 0"
  by (simp add: wrappedSumRi_def)

lemma wrappedSumRi_Cons:
  "wrappedSumRi k (ii # xs) =
     (if rdsInstInfo.State ii = Active \<and> rdsInst ii = k then rdsInstInfo.Count ii else 0)
       + wrappedSumRi k xs"
  by (simp add: wrappedSumRi_def)

lemma lookup_loopRunningEi:
  "lookup (loopRunningEi ei xs) k = lookup ei k + wrappedSumEi k xs"
proof (induction xs arbitrary: ei)
  case Nil
  show ?case by (simp add: wrappedSumEi_Nil)
next
  case (Cons ii xs)
  show ?case
  proof (cases "ec2InstInfo.State ii = Active")
    case True
    then show ?thesis
      by (simp add: Cons.IH wrappedSumEi_Cons lookup_plusAssign)
  next
    case False
    then show ?thesis
      by (simp add: Cons.IH wrappedSumEi_Cons)
  qed
qed

lemma lookup_loopReservedEi:
  "lookup (loopReservedEi ei xs) k = lookup ei k - wrappedSumEi k xs"
proof (induction xs arbitrary: ei)
  case Nil
  show ?case by (simp add: wrappedSumEi_Nil)
next
  case (Cons ii xs)
  show ?case
  proof (cases "ec2InstInfo.State ii = Active")
    case True
    then show ?thesis
      by (simp add: Cons.IH wrappedSumEi_Cons lookup_minusAssign)
  next
    case False
    then show ?thesis
      by (simp add: Cons.IH wrappedSumEi_Cons)
  qed
qed

lemma lookup_loopRunningRi:
  "lookup (loopRunningRi ri xs) k = lookup ri k + wrappedSumRi k xs"
proof (induction xs arbitrary: ri)
  case Nil
  show ?case by (simp add: wrappedSumRi_Nil)
next
  case (Cons ii xs)
  show ?case
  proof (cases "rdsInstInfo.State ii = Active")
    case True
    then show ?thesis
      by (simp add: Cons.IH wrappedSumRi_Cons lookup_plusAssign)
  next
    case False
    then show ?thesis
      by (simp add: Cons.IH wrappedSumRi_Cons)
  qed
qed

lemma lookup_loopReservedRi:
  "lookup (loopReservedRi ri xs) k = lookup ri k - wrappedSumRi k xs"
proof (induction xs arbitrary: ri)
  case Nil
  show ?case by (simp add: wrappedSumRi_Nil)
next
  case (Cons ii xs)
  show ?case
  proof (cases "rdsInstInfo.State ii = Active")
    case True
    then show ?thesis
      by (simp add: Cons.IH wrappedSumRi_Cons lookup_minusAssign)
  next
    case False
    then show ?thesis
      by (simp add: Cons.IH wrappedSumRi_Cons)
  qed
qed

lemma dom_loopRunningEi:
  "dom (loopRunningEi ei xs) = dom ei \<union> ec2Inst ` {ii \<in> set xs. ec2InstInfo.State ii = Active}"
proof (induction xs arbitrary: ei)
  case Nil
  show ?case by simp
next
  case (Cons ii xs)
  show ?case
  proof (cases "ec2InstInfo.State ii = Active")
    case True
    then show ?thesis by (simp add: Cons.IH dom_plusAssign) blast
  next
    case False
    then show ?thesis by (simp add: Cons.IH) blast
  qed
qed

lemma dom_loopReservedEi:
  "dom (loopReservedEi ei xs) = dom ei \<union> ec2Inst ` {ii \<in> set xs. ec2InstInfo.State ii = Active}"
proof (induction xs arbitrary: ei)
  case Nil
  show ?case by simp
next
  case (Cons ii xs)
  show ?case
  proof (cases "ec2InstInfo.State ii = Active")
    case True
    then show ?thesis by (simp add: Cons.IH dom_minusAssign) blast
  next
    case False
    then show ?thesis by (simp add: Cons.IH) blast
  qed
qed

lemma dom_loopRunningRi:
  "dom (loopRunningRi ri xs) = dom ri \<union> rdsInst ` {ii \<in> set xs. rdsInstInfo.State ii = Active}"
proof (induction xs arbitrary: ri)
  case Nil
  show ?case by simp
next
  case (Cons ii xs)
  show ?case
  proof (cases "rdsInstInfo.State ii = Active")
    case True
    then show ?thesis by (simp add: Cons.IH dom_plusAssign) blast
  next
    case False
    then show ?thesis by (simp add: Cons.IH) blast
  qed
qed

lemma dom_loopReservedRi:
  "dom (loopReservedRi ri xs) = dom ri \<union> rdsInst ` {ii \<in> set xs. rdsInstInfo.State ii = Active}"
proof (induction xs arbitrary: ri)
  case Nil
  show ?case by simp
next
  case (Cons ii xs)
  show ?case
  proof (cases "rdsInstInfo.State ii = Active")
    case True
    then show ?thesis by (simp add: Cons.IH dom_minusAssign) blast
  next
    case False
    then show ?thesis by (simp add: Cons.IH) blast
  qed
qed

section \<open>Equality of net-count maps\<close>

lemma netmap_eqI:
  assumes "dom m = dom m'" and "\<And>k. lookup m k = lookup m' k"
  shows "m = m'"
proof
  fix k
  show "m k = m' k"
  proof (cases "m k")
    case None
    with assms(1) have "m' k = None" by (metis domIff)
    with None show ?thesis by simp
  next
    case (Some v)
    with assms(1) obtain v' where "m' k = Some v'" by (metis domIff not_Some_eq)
    with Some assms(2)[of k] show ?thesis by (simp add: lookup_def)
  qed
qed

section \<open>Independence of the input order\<close>

lemma sum_list_map_filter_mset:
  fixes f :: "'a \<Rightarrow> go_int"
  shows "mset xs = mset ys \<Longrightarrow> sum_list (map f (filter P xs)) = sum_list (map f (filter P ys))"
proof -
  assume e: "mset xs = mset ys"
  have "mset (map f (filter P xs)) = mset (map f (filter P ys))"
    by (simp only: mset_map mset_filter e)
  then have "sum_mset (mset (map f (filter P xs))) = sum_mset (mset (map f (filter P ys)))"
    by (rule arg_cong)
  then show ?thesis
    by (simp only: sum_mset_sum_list)
qed

lemma wrappedSumEi_mset: "mset xs = mset ys \<Longrightarrow> wrappedSumEi k xs = wrappedSumEi k ys"
  unfolding wrappedSumEi_def by (rule sum_list_map_filter_mset)

lemma wrappedSumRi_mset: "mset xs = mset ys \<Longrightarrow> wrappedSumRi k xs = wrappedSumRi k ys"
  unfolding wrappedSumRi_def by (rule sum_list_map_filter_mset)

lemma dom_reconcileEi:
  "dom (reconcileEi rs ss) =
     ec2Inst ` {ii \<in> set rs. ec2InstInfo.State ii = Active}
       \<union> ec2Inst ` {ii \<in> set ss. ec2InstInfo.State ii = Active}"
  by (simp only: reconcileEi_def dom_loopRunningEi dom_loopReservedEi dom_empty Un_empty_left)

lemma dom_reconcileRi:
  "dom (reconcileRi rs ss) =
     rdsInst ` {ii \<in> set rs. rdsInstInfo.State ii = Active}
       \<union> rdsInst ` {ii \<in> set ss. rdsInstInfo.State ii = Active}"
  by (simp only: reconcileRi_def dom_loopRunningRi dom_loopReservedRi dom_empty Un_empty_left)

lemma lookup_reconcileEi:
  "lookup (reconcileEi rs ss) k = wrappedSumEi k rs - wrappedSumEi k ss"
  by (simp only: reconcileEi_def lookup_loopRunningEi lookup_loopReservedEi lookup_empty add_0)

lemma lookup_reconcileRi:
  "lookup (reconcileRi rs ss) k = wrappedSumRi k rs - wrappedSumRi k ss"
  by (simp only: reconcileRi_def lookup_loopRunningRi lookup_loopReservedRi lookup_empty add_0)

text \<open>
  C5. The net-count maps do not depend on the order of the input records: if the
  running lists are permutations of each other and the reserved lists are
  permutations of each other, the maps are equal, keys and values.
\<close>

theorem reconcile_permutation_invariant:
  assumes "mset runningEi = mset runningEi'" and "mset reservedEi = mset reservedEi'"
    and "mset runningRi = mset runningRi'" and "mset reservedRi = mset reservedRi'"
  shows "reconcileEi runningEi reservedEi = reconcileEi runningEi' reservedEi' \<and>
         reconcileRi runningRi reservedRi = reconcileRi runningRi' reservedRi'"
proof
  have s1: "set runningEi = set runningEi'" and s2: "set reservedEi = set reservedEi'"
    using assms(1,2) by (auto dest: mset_eq_setD)
  show "reconcileEi runningEi reservedEi = reconcileEi runningEi' reservedEi'"
  proof (rule netmap_eqI)
    show "dom (reconcileEi runningEi reservedEi) = dom (reconcileEi runningEi' reservedEi')"
      by (simp only: dom_reconcileEi s1 s2)
  next
    fix k
    show "lookup (reconcileEi runningEi reservedEi) k = lookup (reconcileEi runningEi' reservedEi') k"
      by (simp only: lookup_reconcileEi wrappedSumEi_mset[OF assms(1)] wrappedSumEi_mset[OF assms(2)])
  qed
next
  have s3: "set runningRi = set runningRi'" and s4: "set reservedRi = set reservedRi'"
    using assms(3,4) by (auto dest: mset_eq_setD)
  show "reconcileRi runningRi reservedRi = reconcileRi runningRi' reservedRi'"
  proof (rule netmap_eqI)
    show "dom (reconcileRi runningRi reservedRi) = dom (reconcileRi runningRi' reservedRi')"
      by (simp only: dom_reconcileRi s3 s4)
  next
    fix k
    show "lookup (reconcileRi runningRi reservedRi) k = lookup (reconcileRi runningRi' reservedRi') k"
      by (simp only: lookup_reconcileRi wrappedSumRi_mset[OF assms(3)] wrappedSumRi_mset[OF assms(4)])
  qed
qed

theorem reconcile_permutation_invariant_witness:
  "reconcileEi
     [\<lparr>ec2Inst = \<lparr>ec2Inst.Class = ''m3.large'', VPC = False\<rparr>, Count = 1, State = Active\<rparr>,
      \<lparr>ec2Inst = \<lparr>ec2Inst.Class = ''c3.large'', VPC = True\<rparr>, Count = 1, State = Active\<rparr>]
     [\<lparr>ec2Inst = \<lparr>ec2Inst.Class = ''m3.large'', VPC = False\<rparr>, Count = 2, State = Active\<rparr>,
      \<lparr>ec2Inst = \<lparr>ec2Inst.Class = ''c3.large'', VPC = True\<rparr>, Count = 4, State = UnknownState\<rparr>]
   = reconcileEi
     [\<lparr>ec2Inst = \<lparr>ec2Inst.Class = ''c3.large'', VPC = True\<rparr>, Count = 1, State = Active\<rparr>,
      \<lparr>ec2Inst = \<lparr>ec2Inst.Class = ''m3.large'', VPC = False\<rparr>, Count = 1, State = Active\<rparr>]
     [\<lparr>ec2Inst = \<lparr>ec2Inst.Class = ''c3.large'', VPC = True\<rparr>, Count = 4, State = UnknownState\<rparr>,
      \<lparr>ec2Inst = \<lparr>ec2Inst.Class = ''m3.large'', VPC = False\<rparr>, Count = 2, State = Active\<rparr>] \<and>
   reconcileRi
     [\<lparr>rdsInst = \<lparr>rdsInst.Class = ''db.m3.large'', Product = ''mysql'', MultiAZ = True\<rparr>,
       Count = 1, State = Active\<rparr>,
      \<lparr>rdsInst = \<lparr>rdsInst.Class = ''db.m3.large'', Product = ''postgres'', MultiAZ = False\<rparr>,
       Count = 1, State = Active\<rparr>]
     []
   = reconcileRi
     [\<lparr>rdsInst = \<lparr>rdsInst.Class = ''db.m3.large'', Product = ''postgres'', MultiAZ = False\<rparr>,
       Count = 1, State = Active\<rparr>,
      \<lparr>rdsInst = \<lparr>rdsInst.Class = ''db.m3.large'', Product = ''mysql'', MultiAZ = True\<rparr>,
       Count = 1, State = Active\<rparr>]
     []"
proof -
  have p: "mset [x, y] = mset [y, x]" for x y :: 'z
    by (simp add: add_mset_commute)
  show ?thesis
    by (rule reconcile_permutation_invariant) (rule p refl)+
qed

section \<open>The net-count invariant\<close>

lemma sint_sum_list_go_int:
  fixes ws :: "go_int list"
  shows "sint (sum_list ws) = signed_take_bit 63 (sum_list (map sint ws))"
proof (induction ws)
  case Nil
  show ?case by simp
next
  case (Cons w ws)
  have "sint (w + sum_list ws) = signed_take_bit 63 (sint w + sint (sum_list ws))"
    by (simp add: sint_word_add)
  also have "\<dots> = signed_take_bit 63 (sint w + signed_take_bit 63 (sum_list (map sint ws)))"
    by (simp only: Cons.IH)
  also have "\<dots> = signed_take_bit 63
      (signed_take_bit 63 (sint w) + signed_take_bit 63 (signed_take_bit 63 (sum_list (map sint ws))))"
    by (rule signed_take_bit_add[symmetric])
  also have "\<dots> = signed_take_bit 63
      (signed_take_bit 63 (sint w) + signed_take_bit 63 (sum_list (map sint ws)))"
    by simp
  also have "\<dots> = signed_take_bit 63 (sint w + sum_list (map sint ws))"
    by (rule signed_take_bit_add)
  finally show ?case by simp
qed

lemma sint_wrappedSumEi: "sint (wrappedSumEi k xs) = signed_take_bit 63 (sumActiveEi k xs)"
  by (simp only: wrappedSumEi_def sumActiveEi_def sint_sum_list_go_int map_map comp_def)

lemma sint_wrappedSumRi: "sint (wrappedSumRi k xs) = signed_take_bit 63 (sumActiveRi k xs)"
  by (simp only: wrappedSumRi_def sumActiveRi_def sint_sum_list_go_int map_map comp_def)

lemma sint_diff_wrapped:
  fixes a b :: go_int
  assumes "sint a = signed_take_bit 63 x" and "sint b = signed_take_bit 63 y"
  shows "sint (a - b) = signed_take_bit 63 (x - y)"
proof -
  have "sint (a - b) = signed_take_bit 63 (sint a - sint b)"
    by (simp add: sint_word_diff)
  also have "\<dots> = signed_take_bit 63 (signed_take_bit 63 x - signed_take_bit 63 y)"
    by (simp only: assms)
  also have "\<dots> = signed_take_bit 63 (x - y)"
    by (rule signed_take_bit_diff)
  finally show ?thesis .
qed

lemma sint_lookup_reconcileEi:
  "sint (lookup (reconcileEi rs ss) k) = signed_take_bit 63 (sumActiveEi k rs - sumActiveEi k ss)"
  by (simp only: lookup_reconcileEi sint_diff_wrapped[OF sint_wrappedSumEi sint_wrappedSumEi])

lemma sint_lookup_reconcileRi:
  "sint (lookup (reconcileRi rs ss) k) = signed_take_bit 63 (sumActiveRi k rs - sumActiveRi k ss)"
  by (simp only: lookup_reconcileRi sint_diff_wrapped[OF sint_wrappedSumRi sint_wrappedSumRi])

lemma signed_take_bit_63_mod:
  "signed_take_bit 63 (x :: int) mod 2 ^ 64 = x mod 2 ^ 64"
proof -
  have "take_bit (Suc 63) (signed_take_bit 63 x) = take_bit (Suc 63) x"
    by (simp only: signed_take_bit_eq_iff_take_bit_eq[symmetric] signed_take_bit_signed_take_bit min.idem)
  then show ?thesis by (simp add: take_bit_eq_mod)
qed

lemma signed_take_bit_63_id:
  "- 9223372036854775808 \<le> (x :: int) \<Longrightarrow> x < 9223372036854775808 \<Longrightarrow> signed_take_bit 63 x = x"
  by (simp add: signed_take_bit_int_eq_self_iff)

text \<open>
  C1 (amended). For every key, the value of the net-count map when the printing
  starts, read as a signed number, is congruent modulo \<open>2^64\<close> to the integer sum
  of the counts of the \<open>Active\<close> running records with that key minus the integer
  sum of the counts of the \<open>Active\<close> reserved records with that key; it is equal
  to that difference whenever the difference lies between \<open>-2^63\<close> and \<open>2^63 - 1\<close>.
  This holds for the compute map \<open>ei\<close> and for the database map \<open>ri\<close>. Each
  iteration of the four loops adds, or subtracts, the count of an \<open>Active\<close> record
  at the record's key with the wrapping \<open>+\<close> and \<open>-\<close> of \<open>int\<close> and changes
  nothing else. The value at a key that is not in the map is 0.
\<close>

theorem net_count_invariant:
  "sint (lookup (reconcileEi runningEi reservedEi) k) mod 2 ^ 64 =
     (sumActiveEi k runningEi - sumActiveEi k reservedEi) mod 2 ^ 64 \<and>
   (- (2 ^ 63) \<le> sumActiveEi k runningEi - sumActiveEi k reservedEi \<and>
    sumActiveEi k runningEi - sumActiveEi k reservedEi < 2 ^ 63 \<longrightarrow>
      sint (lookup (reconcileEi runningEi reservedEi) k) =
        sumActiveEi k runningEi - sumActiveEi k reservedEi) \<and>
   sint (lookup (reconcileRi runningRi reservedRi) k') mod 2 ^ 64 =
     (sumActiveRi k' runningRi - sumActiveRi k' reservedRi) mod 2 ^ 64 \<and>
   (- (2 ^ 63) \<le> sumActiveRi k' runningRi - sumActiveRi k' reservedRi \<and>
    sumActiveRi k' runningRi - sumActiveRi k' reservedRi < 2 ^ 63 \<longrightarrow>
      sint (lookup (reconcileRi runningRi reservedRi) k') =
        sumActiveRi k' runningRi - sumActiveRi k' reservedRi) \<and>
   lookup (loopRunningEi ei [ii]) k =
     lookup ei k + (if ec2InstInfo.State ii = Active \<and> ec2Inst ii = k
                    then ec2InstInfo.Count ii else 0) \<and>
   lookup (loopReservedEi ei [ii]) k =
     lookup ei k - (if ec2InstInfo.State ii = Active \<and> ec2Inst ii = k
                    then ec2InstInfo.Count ii else 0) \<and>
   lookup (loopRunningRi ri [jj]) k' =
     lookup ri k' + (if rdsInstInfo.State jj = Active \<and> rdsInst jj = k'
                     then rdsInstInfo.Count jj else 0) \<and>
   lookup (loopReservedRi ri [jj]) k' =
     lookup ri k' - (if rdsInstInfo.State jj = Active \<and> rdsInst jj = k'
                     then rdsInstInfo.Count jj else 0)"
proof -
  let ?de = "sumActiveEi k runningEi - sumActiveEi k reservedEi"
  let ?dr = "sumActiveRi k' runningRi - sumActiveRi k' reservedRi"
  have a1: "sint (lookup (reconcileEi runningEi reservedEi) k) mod 2 ^ 64 = ?de mod 2 ^ 64"
    by (simp only: sint_lookup_reconcileEi signed_take_bit_63_mod)
  have a2: "- (2 ^ 63) \<le> ?de \<and> ?de < 2 ^ 63 \<longrightarrow>
      sint (lookup (reconcileEi runningEi reservedEi) k) = ?de"
  proof
    assume "- (2 ^ 63) \<le> ?de \<and> ?de < 2 ^ 63"
    then have "signed_take_bit 63 ?de = ?de"
      by (intro signed_take_bit_63_id) simp_all
    then show "sint (lookup (reconcileEi runningEi reservedEi) k) = ?de"
      by (simp only: sint_lookup_reconcileEi)
  qed
  have b1: "sint (lookup (reconcileRi runningRi reservedRi) k') mod 2 ^ 64 = ?dr mod 2 ^ 64"
    by (simp only: sint_lookup_reconcileRi signed_take_bit_63_mod)
  have b2: "- (2 ^ 63) \<le> ?dr \<and> ?dr < 2 ^ 63 \<longrightarrow>
      sint (lookup (reconcileRi runningRi reservedRi) k') = ?dr"
  proof
    assume "- (2 ^ 63) \<le> ?dr \<and> ?dr < 2 ^ 63"
    then have "signed_take_bit 63 ?dr = ?dr"
      by (intro signed_take_bit_63_id) simp_all
    then show "sint (lookup (reconcileRi runningRi reservedRi) k') = ?dr"
      by (simp only: sint_lookup_reconcileRi)
  qed
  have e: "wrappedSumEi k [ii] =
      (if ec2InstInfo.State ii = Active \<and> ec2Inst ii = k then ec2InstInfo.Count ii else 0)"
    by (simp only: wrappedSumEi_Cons wrappedSumEi_Nil add_0_right)
  have r: "wrappedSumRi k' [jj] =
      (if rdsInstInfo.State jj = Active \<and> rdsInst jj = k' then rdsInstInfo.Count jj else 0)"
    by (simp only: wrappedSumRi_Cons wrappedSumRi_Nil add_0_right)
  have s1: "lookup (loopRunningEi ei [ii]) k = lookup ei k + wrappedSumEi k [ii]"
    by (rule lookup_loopRunningEi)
  have s2: "lookup (loopReservedEi ei [ii]) k = lookup ei k - wrappedSumEi k [ii]"
    by (rule lookup_loopReservedEi)
  have s3: "lookup (loopRunningRi ri [jj]) k' = lookup ri k' + wrappedSumRi k' [jj]"
    by (rule lookup_loopRunningRi)
  have s4: "lookup (loopReservedRi ri [jj]) k' = lookup ri k' - wrappedSumRi k' [jj]"
    by (rule lookup_loopReservedRi)
  from a1 a2 b1 b2 s1 s2 s3 s4 show ?thesis
    unfolding e r by (intro conjI)
qed

text \<open>
  Scenario A: three running instances and one reservation of one key give the
  net count 2; a database reservation of four with nothing running gives -4.
\<close>

theorem net_count_invariant_witness:
  "sint (lookup
     (reconcileEi
        [\<lparr>ec2Inst = \<lparr>ec2Inst.Class = ''m3.large'', VPC = False\<rparr>, Count = 1, State = Active\<rparr>,
         \<lparr>ec2Inst = \<lparr>ec2Inst.Class = ''m3.large'', VPC = False\<rparr>, Count = 1, State = Active\<rparr>,
         \<lparr>ec2Inst = \<lparr>ec2Inst.Class = ''m3.large'', VPC = False\<rparr>, Count = 1, State = Active\<rparr>]
        [\<lparr>ec2Inst = \<lparr>ec2Inst.Class = ''m3.large'', VPC = False\<rparr>, Count = 1, State = Active\<rparr>])
     \<lparr>ec2Inst.Class = ''m3.large'', VPC = False\<rparr>) = 2 \<and>
   sint (lookup
     (reconcileRi
        []
        [\<lparr>rdsInst = \<lparr>rdsInst.Class = ''db.m3.large'', Product = ''mysql'', MultiAZ = True\<rparr>,
          Count = 4, State = Active\<rparr>])
     \<lparr>rdsInst.Class = ''db.m3.large'', Product = ''mysql'', MultiAZ = True\<rparr>) = - 4"
proof -
  let ?k = "\<lparr>ec2Inst.Class = ''m3.large'', VPC = False\<rparr>"
  let ?a = "\<lparr>ec2Inst = ?k, Count = 1, State = Active\<rparr>"
  let ?kr = "\<lparr>rdsInst.Class = ''db.m3.large'', Product = ''mysql'', MultiAZ = True\<rparr>"
  let ?x = "\<lparr>rdsInst = ?kr, Count = 4, State = Active\<rparr>"
  have de: "sumActiveEi ?k [?a, ?a, ?a] - sumActiveEi ?k [?a] = 2"
    by (simp add: sumActiveEi_def)
  have dr: "sumActiveRi ?kr [] - sumActiveRi ?kr [?x] = - 4"
    by (simp add: sumActiveRi_def)
  note T = net_count_invariant[where runningEi = "[?a, ?a, ?a]" and reservedEi = "[?a]" and k = ?k
      and runningRi = "[]" and reservedRi = "[?x]" and k' = ?kr
      and ei = Map.empty and ri = Map.empty and ii = ?a and jj = ?x]
  from T have 1: "- (2 ^ 63) \<le> sumActiveEi ?k [?a, ?a, ?a] - sumActiveEi ?k [?a] \<and>
      sumActiveEi ?k [?a, ?a, ?a] - sumActiveEi ?k [?a] < 2 ^ 63 \<longrightarrow>
      sint (lookup (reconcileEi [?a, ?a, ?a] [?a]) ?k) =
        sumActiveEi ?k [?a, ?a, ?a] - sumActiveEi ?k [?a]"
    by (elim conjE)
  from T have 2: "- (2 ^ 63) \<le> sumActiveRi ?kr [] - sumActiveRi ?kr [?x] \<and>
      sumActiveRi ?kr [] - sumActiveRi ?kr [?x] < 2 ^ 63 \<longrightarrow>
      sint (lookup (reconcileRi [] [?x]) ?kr) = sumActiveRi ?kr [] - sumActiveRi ?kr [?x]"
    by (elim conjE)
  from 1 have 3: "sint (lookup (reconcileEi [?a, ?a, ?a] [?a]) ?k) = 2"
    unfolding de by simp
  from 2 have 4: "sint (lookup (reconcileRi [] [?x]) ?kr) = - 4"
    unfolding dr by simp
  from 3 4 show ?thesis by (rule conjI)
qed

text \<open>
  C1 as stated fails: with nothing running and two active reservations of one
  key with the counts \<open>2^63 - 1\<close> and 2, the integer difference of the sums is
  \<open>-(2^63 + 1)\<close>, and the net count in the map has wrapped around to \<open>2^63 - 1\<close>.
\<close>

theorem net_count_overflow_counterexample:
  "sint (lookup
     (reconcileEi []
        [ec2riToec2ii \<lparr>ec2_ReservedInstances.InstanceType = Some ''m3.large'',
                       InstanceCount = Some 9223372036854775807,
                       ProductDescription = None, State = Some ''active''\<rparr>,
         ec2riToec2ii \<lparr>ec2_ReservedInstances.InstanceType = Some ''m3.large'',
                       InstanceCount = Some 2,
                       ProductDescription = None, State = Some ''active''\<rparr>])
     \<lparr>ec2Inst.Class = ''m3.large'', VPC = False\<rparr>) = 9223372036854775807 \<and>
   sumActiveEi \<lparr>ec2Inst.Class = ''m3.large'', VPC = False\<rparr> []
     - sumActiveEi \<lparr>ec2Inst.Class = ''m3.large'', VPC = False\<rparr>
        [ec2riToec2ii \<lparr>ec2_ReservedInstances.InstanceType = Some ''m3.large'',
                       InstanceCount = Some 9223372036854775807,
                       ProductDescription = None, State = Some ''active''\<rparr>,
         ec2riToec2ii \<lparr>ec2_ReservedInstances.InstanceType = Some ''m3.large'',
                       InstanceCount = Some 2,
                       ProductDescription = None, State = Some ''active''\<rparr>]
     = - 9223372036854775809"
proof -
  let ?k = "\<lparr>ec2Inst.Class = ''m3.large'', VPC = False\<rparr>"
  have n1: "ec2riToec2ii \<lparr>ec2_ReservedInstances.InstanceType = Some ''m3.large'',
                       InstanceCount = Some 9223372036854775807,
                       ProductDescription = None, State = Some ''active''\<rparr>
      = \<lparr>ec2Inst = ?k, Count = 9223372036854775807, State = Active\<rparr>"
    by (simp add: ec2riToec2ii_def toStr_def toInt_def Let_def)
  have n2: "ec2riToec2ii \<lparr>ec2_ReservedInstances.InstanceType = Some ''m3.large'',
                       InstanceCount = Some 2,
                       ProductDescription = None, State = Some ''active''\<rparr>
      = \<lparr>ec2Inst = ?k, Count = 2, State = Active\<rparr>"
    by (simp add: ec2riToec2ii_def toStr_def toInt_def Let_def)
  have v: "sint (lookup (reconcileEi []
       [\<lparr>ec2Inst = ?k, Count = 9223372036854775807, State = Active\<rparr>,
        \<lparr>ec2Inst = ?k, Count = 2, State = Active\<rparr>]) ?k) = 9223372036854775807"
    by (simp add: reconcileEi_def minusAssign_def lookup_def)
  have d: "sumActiveEi ?k [] - sumActiveEi ?k
       [\<lparr>ec2Inst = ?k, Count = 9223372036854775807, State = Active\<rparr>,
        \<lparr>ec2Inst = ?k, Count = 2, State = Active\<rparr>] = - 9223372036854775809"
    by (simp add: sumActiveEi_def)
  show ?thesis
    unfolding n1 n2 using v d by (rule conjI)
qed

section \<open>Classification\<close>

lemma sint_MinInt64: "sint MinInt64 = - 9223372036854775808"
  by (simp add: MinInt64_def)

lemma sint_uminus_go_int:
  fixes v :: go_int
  assumes "v \<noteq> MinInt64"
  shows "sint (- v) = - sint v"
proof -
  have "sint v \<noteq> sint MinInt64"
    using assms by (auto dest: signed_word_eqI)
  then have ne: "sint v \<noteq> - 9223372036854775808"
    by (simp add: sint_MinInt64)
  have ge: "- 9223372036854775808 \<le> sint v"
    using sint_ge[of v] by simp
  have lt: "sint v < 9223372036854775808"
    using sint_lt[of v] by simp
  have "sint (- v) = signed_take_bit 63 (- sint v)"
    by (simp add: sint_word_ariths)
  also have "\<dots> = - sint v"
    using ne ge lt by (simp add: signed_take_bit_int_eq_self_iff)
  finally show ?thesis .
qed

lemma main_Inr:
  "main (Inr a) (Inr b) (Inr c) (Inr d) =
     Inr \<lparr>onDemandEC2 = onDemand (reconcileEi (concat (map (\<lambda>r. map ec2iToec2ii (Instances r)) a))
                                             (map ec2riToec2ii c)),
          unusedEC2 = unusedReservations (reconcileEi (concat (map (\<lambda>r. map ec2iToec2ii (Instances r)) a))
                                             (map ec2riToec2ii c)),
          onDemandRDS = onDemand (reconcileRi (map rdsiTordsii b) (map rdsriTordsii d)),
          unusedRDS = unusedReservations (reconcileRi (map rdsiTordsii b) (map rdsriTordsii d))\<rparr>"
  by (simp add: main_def getRunningEC2Instances_def getRunningRDSInstances_def
        getReservedEC2Instances_def getReservedRDSInstances_def reconcileEi_def reconcileRi_def
        Let_def)

lemma main_Inl:
  "main (Inl e) b c d = Inl e"
  "main (Inr ra) (Inl e) c d = Inl e"
  "main (Inr ra) (Inr rb) (Inl e) d = Inl e"
  "main (Inr ra) (Inr rb) (Inr rc) (Inl e) = Inl e"
  by (simp_all add: main_def getRunningEC2Instances_def getRunningRDSInstances_def
        getReservedEC2Instances_def getReservedRDSInstances_def)

lemma main_report_shape:
  assumes "main a b c d = Inr rep"
  shows "\<exists>ei ri. rep = \<lparr>onDemandEC2 = onDemand ei, unusedEC2 = unusedReservations ei,
                        onDemandRDS = onDemand ri, unusedRDS = unusedReservations ri\<rparr>"
proof (cases a)
  case (Inl e)
  with assms show ?thesis by (simp add: main_Inl)
next
  case ra: (Inr ra)
  show ?thesis
  proof (cases b)
    case (Inl e)
    with assms ra show ?thesis by (simp add: main_Inl)
  next
    case rb: (Inr rb)
    show ?thesis
    proof (cases c)
      case (Inl e)
      with assms ra rb show ?thesis by (simp add: main_Inl)
    next
      case rc: (Inr rc)
      show ?thesis
      proof (cases d)
        case (Inl e)
        with assms ra rb rc show ?thesis by (simp add: main_Inl)
      next
        case (Inr rd)
        with assms ra rb rc have "rep = \<lparr>onDemandEC2 = onDemand (reconcileEi (concat (map (\<lambda>r. map ec2iToec2ii (Instances r)) ra))
                                             (map ec2riToec2ii rc)),
          unusedEC2 = unusedReservations (reconcileEi (concat (map (\<lambda>r. map ec2iToec2ii (Instances r)) ra))
                                             (map ec2riToec2ii rc)),
          onDemandRDS = onDemand (reconcileRi (map rdsiTordsii rb) (map rdsriTordsii rd)),
          unusedRDS = unusedReservations (reconcileRi (map rdsiTordsii rb) (map rdsriTordsii rd))\<rparr>"
          by (simp only: main_Inr sum.inject)
        then show ?thesis by blast
      qed
    qed
  qed
qed

lemma onDemand_Some_iff:
  "onDemand m k = Some v \<longleftrightarrow> m k = Some v \<and> 0 < sint v"
  by (cases "m k") (auto simp: onDemand_def)

lemma unusedReservations_Some_iff:
  "unusedReservations m k = Some v \<longleftrightarrow> (\<exists>net. m k = Some net \<and> sint net < 0 \<and> v = - net)"
  by (cases "m k") (auto simp: unusedReservations_def)

lemma sint_uminus_pos:
  fixes net :: go_int
  assumes "sint net < 0" and "net \<noteq> MinInt64"
  shows "0 < sint (- net)"
  using assms by (simp add: sint_uminus_go_int)

lemma uminus_eq_MinInt64: "- net = MinInt64 \<longleftrightarrow> net = MinInt64"
proof -
  have "- MinInt64 = MinInt64" by (simp add: MinInt64_def)
  then show ?thesis by (metis minus_minus)
qed

lemma unused_value_pos:
  assumes "unusedReservations m k = Some v" and "v \<noteq> MinInt64"
  shows "0 < sint v"
proof -
  from assms(1) obtain net where n: "sint net < 0" "v = - net"
    by (auto simp: unusedReservations_Some_iff)
  with assms(2) have "net \<noteq> MinInt64" by (simp add: uminus_eq_MinInt64)
  with n show ?thesis by (simp add: sint_uminus_pos)
qed

text \<open>
  C2 (amended). For every net-count map and key with net value \<open>net\<close>: if
  \<open>net > 0\<close> the key is in the on-demand bucket with value \<open>net\<close> and not in the
  other; if \<open>net < 0\<close> the key is in the unused-reservations bucket with value
  \<open>-net\<close> and not in the other, and \<open>-net\<close> is the positive magnitude of \<open>net\<close>
  whenever \<open>net\<close> is not the smallest \<open>int\<close>; if \<open>net = 0\<close>, or the key is not in
  the map, the key is in neither bucket. Every value of an on-demand bucket is
  positive, and so is every value of an unused-reservations bucket other than
  the smallest \<open>int\<close>. The statement is for any key type, so for the compute and
  the database map, and it holds for the four buckets that \<open>main\<close> prints.
\<close>

theorem classification_by_sign:
  "(m k = Some net \<and> 0 < sint net \<longrightarrow>
      onDemand m k = Some net \<and> unusedReservations m k = None) \<and>
   (m k = Some net \<and> sint net < 0 \<longrightarrow>
      onDemand m k = None \<and> unusedReservations m k = Some (- net) \<and>
      (net \<noteq> MinInt64 \<longrightarrow> sint (- net) = - sint net \<and> 0 < sint (- net))) \<and>
   (m k = Some 0 \<longrightarrow> onDemand m k = None \<and> unusedReservations m k = None) \<and>
   (m k = None \<longrightarrow> onDemand m k = None \<and> unusedReservations m k = None) \<and>
   (onDemand m k = Some v \<longrightarrow> 0 < sint v) \<and>
   (unusedReservations m k = Some v \<and> v \<noteq> MinInt64 \<longrightarrow> 0 < sint v) \<and>
   (main a b c d = Inr rep \<longrightarrow>
      (onDemandEC2 rep ke = Some v \<longrightarrow> 0 < sint v) \<and>
      (onDemandRDS rep kr = Some v \<longrightarrow> 0 < sint v) \<and>
      (unusedEC2 rep ke = Some v \<and> v \<noteq> MinInt64 \<longrightarrow> 0 < sint v) \<and>
      (unusedRDS rep kr = Some v \<and> v \<noteq> MinInt64 \<longrightarrow> 0 < sint v))"
proof -
  have p1: "m k = Some net \<and> 0 < sint net \<longrightarrow>
      onDemand m k = Some net \<and> unusedReservations m k = None"
    by (simp add: onDemand_def unusedReservations_def)
  have p2: "m k = Some net \<and> sint net < 0 \<longrightarrow>
      onDemand m k = None \<and> unusedReservations m k = Some (- net) \<and>
      (net \<noteq> MinInt64 \<longrightarrow> sint (- net) = - sint net \<and> 0 < sint (- net))"
    by (simp add: onDemand_def unusedReservations_def sint_uminus_go_int)
  have p3: "m k = Some 0 \<longrightarrow> onDemand m k = None \<and> unusedReservations m k = None"
    by (simp add: onDemand_def unusedReservations_def)
  have p4: "m k = None \<longrightarrow> onDemand m k = None \<and> unusedReservations m k = None"
    by (simp add: onDemand_def unusedReservations_def)
  have p5: "onDemand m' k' = Some v \<longrightarrow> 0 < sint v" for m' :: "'z netmap" and k'
    by (simp add: onDemand_Some_iff)
  have p6: "unusedReservations m' k' = Some v \<and> v \<noteq> MinInt64 \<longrightarrow> 0 < sint v"
    for m' :: "'z netmap" and k'
    using unused_value_pos[of m' k' v] by blast
  have p7: "main a b c d = Inr rep \<longrightarrow>
      (onDemandEC2 rep ke = Some v \<longrightarrow> 0 < sint v) \<and>
      (onDemandRDS rep kr = Some v \<longrightarrow> 0 < sint v) \<and>
      (unusedEC2 rep ke = Some v \<and> v \<noteq> MinInt64 \<longrightarrow> 0 < sint v) \<and>
      (unusedRDS rep kr = Some v \<and> v \<noteq> MinInt64 \<longrightarrow> 0 < sint v)"
  proof
    assume "main a b c d = Inr rep"
    then obtain ei ri where
      r: "rep = \<lparr>onDemandEC2 = onDemand ei, unusedEC2 = unusedReservations ei,
                 onDemandRDS = onDemand ri, unusedRDS = unusedReservations ri\<rparr>"
      using main_report_shape by blast
    show "(onDemandEC2 rep ke = Some v \<longrightarrow> 0 < sint v) \<and>
      (onDemandRDS rep kr = Some v \<longrightarrow> 0 < sint v) \<and>
      (unusedEC2 rep ke = Some v \<and> v \<noteq> MinInt64 \<longrightarrow> 0 < sint v) \<and>
      (unusedRDS rep kr = Some v \<and> v \<noteq> MinInt64 \<longrightarrow> 0 < sint v)"
      unfolding r using onDemand_Some_iff[of ei ke v] onDemand_Some_iff[of ri kr v]
        unused_value_pos[of ei ke v] unused_value_pos[of ri kr v]
      by simp
  qed
  from p1 p2 p3 p4 p5[of m k] p6[of m k] p7 show ?thesis by blast
qed

text \<open>
  The rule at a map with a positive, a negative and a zero net count, and at the
  report of \<open>main\<close> for one running instance.
\<close>

theorem classification_by_sign_witness:
  "onDemand [''a'' \<mapsto> 2, ''b'' \<mapsto> - 3, ''c'' \<mapsto> 0] ''a'' = Some 2 \<and>
   unusedReservations [''a'' \<mapsto> 2, ''b'' \<mapsto> - 3, ''c'' \<mapsto> 0] ''a'' = None \<and>
   onDemand [''a'' \<mapsto> 2, ''b'' \<mapsto> - 3, ''c'' \<mapsto> 0] ''b'' = None \<and>
   unusedReservations [''a'' \<mapsto> 2, ''b'' \<mapsto> - 3, ''c'' \<mapsto> 0] ''b'' = Some 3 \<and>
   sint (- (- 3 :: go_int)) = 3 \<and>
   onDemandEC2
     (projr (main (Inr [\<lparr>Instances =
                          [\<lparr>ec2_Instance.InstanceType = Some ''m3.large'', VPCID = None,
                            State = Some \<lparr>Name = Some ''running''\<rparr>\<rparr>]\<rparr>])
                  (Inr []) (Inr []) (Inr [])))
     \<lparr>ec2Inst.Class = ''m3.large'', VPC = False\<rparr> = Some 1 \<and>
   0 < sint (1 :: go_int)"
proof -
  let ?m = "[''a'' \<mapsto> 2, ''b'' \<mapsto> - 3, ''c'' \<mapsto> 0] :: string netmap"
  let ?i = "\<lparr>ec2_Instance.InstanceType = Some ''m3.large'', VPCID = None,
             State = Some \<lparr>Name = Some ''running''\<rparr>\<rparr>"
  let ?a = "Inr [\<lparr>Instances = [?i]\<rparr>] :: error + ec2_Reservation list"
  let ?k = "\<lparr>ec2Inst.Class = ''m3.large'', VPC = False\<rparr>"
  let ?rep = "projr (main ?a (Inr []) (Inr []) (Inr []))"
  have a: "?m ''a'' = Some 2 \<and> 0 < sint (2 :: go_int)" by simp
  have b: "?m ''b'' = Some (- 3) \<and> sint (- 3 :: go_int) < 0" by simp
  have n: "(- 3 :: go_int) \<noteq> MinInt64" by (simp add: MinInt64_def)
  have r: "main ?a (Inr []) (Inr []) (Inr []) = Inr ?rep"
    by (simp only: main_Inr sum.sel)
  have i: "ec2iToec2ii ?i =
      \<lparr>ec2Inst = ?k, Count = 1, State = Active\<rparr>"
    by (simp add: ec2iToec2ii_def toStr_def Let_def InstanceStateNameRunning_def)
  have v: "onDemandEC2 ?rep ?k = Some 1"
    by (simp add: main_Inr i reconcileEi_def plusAssign_def lookup_def onDemand_def)
  from a classification_by_sign[of ?m "''a''" 2]
  have 1: "onDemand ?m ''a'' = Some 2 \<and> unusedReservations ?m ''a'' = None" by blast
  from b n classification_by_sign[of ?m "''b''" "- 3"]
  have 2: "onDemand ?m ''b'' = None \<and> unusedReservations ?m ''b'' = Some (- (- 3)) \<and>
           sint (- (- 3 :: go_int)) = - sint (- 3 :: go_int)" by blast
  have "main ?a (Inr []) (Inr []) (Inr []) = Inr ?rep \<longrightarrow>
          (onDemandEC2 ?rep ?k = Some 1 \<longrightarrow> 0 < sint (1 :: go_int))"
    using classification_by_sign[where m = ?m and k = "''a''" and net = 2
      and a = ?a and b = "Inr []" and c = "Inr []" and d = "Inr []"
      and rep = ?rep and ke = ?k and v = 1 and kr = "\<lparr>rdsInst.Class = [], Product = [], MultiAZ = False\<rparr>"]
    by (elim conjE) (rule impI, drule (1) mp, elim conjE, assumption)
  with r v have 3: "0 < sint (1 :: go_int)" by (elim impE) assumption+
  from 1 2 have 4: "onDemand ?m ''a'' = Some 2 \<and> unusedReservations ?m ''a'' = None \<and>
     onDemand ?m ''b'' = None \<and> unusedReservations ?m ''b'' = Some 3 \<and>
     sint (- (- 3 :: go_int)) = 3" by simp
  show ?thesis
    by (simp only: 4 v 3 simp_thms)
qed

text \<open>
  C2 as stated fails: one active compute reservation whose instance count is the
  smallest \<open>int\<close> gives the net count \<open>0 - MinInt64 = MinInt64\<close>, which is
  negative; the printed value \<open>-MinInt64\<close> wraps to \<open>MinInt64\<close> and is negative
  too.
\<close>

theorem unused_value_negative_counterexample:
  "unusedReservations
     (reconcileEi []
        [ec2riToec2ii \<lparr>ec2_ReservedInstances.InstanceType = Some ''m3.large'',
                       InstanceCount = Some (- 9223372036854775808),
                       ProductDescription = None,
                       State = Some ''active''\<rparr>])
     \<lparr>ec2Inst.Class = ''m3.large'', VPC = False\<rparr> = Some (- 9223372036854775808) \<and>
   sint (- 9223372036854775808 :: go_int) < 0"
  by (simp add: reconcileEi_def ec2riToec2ii_def toStr_def toInt_def Let_def
        minusAssign_def lookup_def unusedReservations_def)

text \<open>
  C4. For every net-count map, no key is in both buckets made from it: the
  on-demand bucket and the unused-reservations bucket are disjoint.
\<close>

theorem buckets_mutually_exclusive:
  "dom (onDemand m) \<inter> dom (unusedReservations m) = {}"
proof -
  have "\<not> (k \<in> dom (onDemand m) \<and> k \<in> dom (unusedReservations m))" for k
    by (cases "m k") (simp_all add: onDemand_def unusedReservations_def domIff)
  then show ?thesis by blast
qed

section \<open>Records that are not active\<close>

lemma loopRunningEi_append:
  "loopRunningEi ei (xs @ ys) = loopRunningEi (loopRunningEi ei xs) ys"
  by (induction xs arbitrary: ei) simp_all

lemma loopReservedEi_append:
  "loopReservedEi ei (xs @ ys) = loopReservedEi (loopReservedEi ei xs) ys"
  by (induction xs arbitrary: ei) simp_all

lemma loopRunningRi_append:
  "loopRunningRi ri (xs @ ys) = loopRunningRi (loopRunningRi ri xs) ys"
  by (induction xs arbitrary: ri) simp_all

lemma loopReservedRi_append:
  "loopReservedRi ri (xs @ ys) = loopReservedRi (loopReservedRi ri xs) ys"
  by (induction xs arbitrary: ri) simp_all

lemma skip_ec2:
  assumes "ec2InstInfo.State ii \<noteq> Active"
  shows "loopRunningEi ei (xs @ ii # ys) = loopRunningEi ei (xs @ ys)"
    and "loopReservedEi ei (xs @ ii # ys) = loopReservedEi ei (xs @ ys)"
  using assms by (simp_all add: loopRunningEi_append loopReservedEi_append)

lemma skip_rds:
  assumes "rdsInstInfo.State jj \<noteq> Active"
  shows "loopRunningRi ri (xs @ jj # ys) = loopRunningRi ri (xs @ ys)"
    and "loopReservedRi ri (xs @ jj # ys) = loopReservedRi ri (xs @ ys)"
  using assms by (simp_all add: loopRunningRi_append loopReservedRi_append)

lemma terminated_unknown:
  assumes "ec2_Instance.State r = Some st" and "Name st = Some ''terminated''"
  shows "ec2InstInfo.State (ec2iToec2ii r) = UnknownState"
  using assms
  by (simp add: ec2iToec2ii_def Let_def toStr_def InstanceStateNameRunning_def
        InstanceStateNameStopped_def InstanceStateNameStopping_def
        InstanceStateNameShuttingDown_def InstanceStateNamePending_def)

text \<open>
  C8. A record that is not \<open>Active\<close> leaves the net-count map as it is, values
  and keys: one iteration of any of the four loops on such a record returns the
  map unchanged, and the finished map is the one of the lists without the
  record, whatever its count. A running compute record whose state name is
  "terminated" is not \<open>Active\<close>; a pass with only that record ends with an
  empty map, and no key is in either bucket.
\<close>

theorem inactive_record_leaves_map_unchanged:
  "(ec2InstInfo.State ii \<noteq> Active \<longrightarrow>
      loopRunningEi ei [ii] = ei \<and> loopReservedEi ei [ii] = ei \<and>
      reconcileEi (pre @ ii # post) reservedEi = reconcileEi (pre @ post) reservedEi \<and>
      reconcileEi runningEi (pre @ ii # post) = reconcileEi runningEi (pre @ post)) \<and>
   (rdsInstInfo.State jj \<noteq> Active \<longrightarrow>
      loopRunningRi ri [jj] = ri \<and> loopReservedRi ri [jj] = ri \<and>
      reconcileRi (preR @ jj # postR) reservedRi = reconcileRi (preR @ postR) reservedRi \<and>
      reconcileRi runningRi (preR @ jj # postR) = reconcileRi runningRi (preR @ postR)) \<and>
   (ec2_Instance.State r = Some s \<and> Name s = Some ''terminated'' \<longrightarrow>
      ec2InstInfo.State (ec2iToec2ii r) \<noteq> Active \<and>
      loopRunningEi ei [ec2iToec2ii r] = ei \<and>
      reconcileEi [ec2iToec2ii r] [] = Map.empty \<and>
      onDemand (reconcileEi [ec2iToec2ii r] []) k = None \<and>
      unusedReservations (reconcileEi [ec2iToec2ii r] []) k = None)"
proof -
  have e: "ec2InstInfo.State ii \<noteq> Active \<longrightarrow>
      loopRunningEi ei [ii] = ei \<and> loopReservedEi ei [ii] = ei \<and>
      reconcileEi (pre @ ii # post) reservedEi = reconcileEi (pre @ post) reservedEi \<and>
      reconcileEi runningEi (pre @ ii # post) = reconcileEi runningEi (pre @ post)"
    by (simp add: reconcileEi_def skip_ec2)
  have d: "rdsInstInfo.State jj \<noteq> Active \<longrightarrow>
      loopRunningRi ri [jj] = ri \<and> loopReservedRi ri [jj] = ri \<and>
      reconcileRi (preR @ jj # postR) reservedRi = reconcileRi (preR @ postR) reservedRi \<and>
      reconcileRi runningRi (preR @ jj # postR) = reconcileRi runningRi (preR @ postR)"
    by (simp add: reconcileRi_def skip_rds)
  have t: "ec2_Instance.State r = Some s \<and> Name s = Some ''terminated'' \<longrightarrow>
      ec2InstInfo.State (ec2iToec2ii r) \<noteq> Active \<and>
      loopRunningEi ei [ec2iToec2ii r] = ei \<and>
      reconcileEi [ec2iToec2ii r] [] = Map.empty \<and>
      onDemand (reconcileEi [ec2iToec2ii r] []) k = None \<and>
      unusedReservations (reconcileEi [ec2iToec2ii r] []) k = None"
  proof
    assume "ec2_Instance.State r = Some s \<and> Name s = Some ''terminated''"
    then have u: "ec2InstInfo.State (ec2iToec2ii r) = UnknownState"
      using terminated_unknown by blast
    then show "ec2InstInfo.State (ec2iToec2ii r) \<noteq> Active \<and>
      loopRunningEi ei [ec2iToec2ii r] = ei \<and>
      reconcileEi [ec2iToec2ii r] [] = Map.empty \<and>
      onDemand (reconcileEi [ec2iToec2ii r] []) k = None \<and>
      unusedReservations (reconcileEi [ec2iToec2ii r] []) k = None"
      by (simp add: reconcileEi_def onDemand_def unusedReservations_def)
  qed
  from e d t show ?thesis by blast
qed

text \<open>
  Scenario D: a compute record with count 5 that is not \<open>Active\<close>, a database
  reservation that is not \<open>Active\<close>, and a terminated instance.
\<close>

theorem inactive_record_leaves_map_unchanged_witness:
  "reconcileEi [\<lparr>ec2Inst = \<lparr>ec2Inst.Class = ''m3.large'', VPC = False\<rparr>, Count = 5, State = UnknownState\<rparr>] []
     = Map.empty \<and>
   reconcileRi [] [\<lparr>rdsInst = \<lparr>rdsInst.Class = ''db.m3.large'', Product = ''mysql'', MultiAZ = True\<rparr>,
                    Count = 7, State = UnknownState\<rparr>]
     = Map.empty \<and>
   reconcileEi [ec2iToec2ii \<lparr>ec2_Instance.InstanceType = Some ''m3.large'', VPCID = None,
                              State = Some \<lparr>Name = Some ''terminated''\<rparr>\<rparr>] [] = Map.empty \<and>
   onDemand (reconcileEi [ec2iToec2ii \<lparr>ec2_Instance.InstanceType = Some ''m3.large'', VPCID = None,
                              State = Some \<lparr>Name = Some ''terminated''\<rparr>\<rparr>] [])
     \<lparr>ec2Inst.Class = ''m3.large'', VPC = False\<rparr> = None \<and>
   unusedReservations (reconcileEi [ec2iToec2ii \<lparr>ec2_Instance.InstanceType = Some ''m3.large'', VPCID = None,
                              State = Some \<lparr>Name = Some ''terminated''\<rparr>\<rparr>] [])
     \<lparr>ec2Inst.Class = ''m3.large'', VPC = False\<rparr> = None"
proof -
  let ?ii = "\<lparr>ec2Inst = \<lparr>ec2Inst.Class = ''m3.large'', VPC = False\<rparr>, Count = 5, State = UnknownState\<rparr>"
  let ?jj = "\<lparr>rdsInst = \<lparr>rdsInst.Class = ''db.m3.large'', Product = ''mysql'', MultiAZ = True\<rparr>,
              Count = 7, State = UnknownState\<rparr>"
  let ?s = "\<lparr>Name = Some ''terminated''\<rparr>"
  let ?r = "\<lparr>ec2_Instance.InstanceType = Some ''m3.large'', VPCID = None, State = Some ?s\<rparr>"
  let ?k = "\<lparr>ec2Inst.Class = ''m3.large'', VPC = False\<rparr>"
  have h1: "ec2InstInfo.State ?ii \<noteq> Active" by simp
  have h2: "rdsInstInfo.State ?jj \<noteq> Active" by simp
  have h3: "ec2_Instance.State ?r = Some ?s \<and> Name ?s = Some ''terminated''" by simp
  note T = inactive_record_leaves_map_unchanged
    [where ii = ?ii and jj = ?jj and r = ?r and s = ?s and k = ?k and ei = Map.empty
       and pre = "[]" and post = "[]" and reservedEi = "[]" and runningRi = "[]"
       and preR = "[]" and postR = "[]"]
  from h1 T have a: "reconcileEi ([] @ ?ii # []) [] = reconcileEi ([] @ []) []" by blast
  from h2 T have b: "reconcileRi [] ([] @ ?jj # []) = reconcileRi [] ([] @ [])" by blast
  from h3 T have c: "reconcileEi [ec2iToec2ii ?r] [] = Map.empty \<and>
      onDemand (reconcileEi [ec2iToec2ii ?r] []) ?k = None \<and>
      unusedReservations (reconcileEi [ec2iToec2ii ?r] []) ?k = None" by blast
  have z: "reconcileEi [] [] = Map.empty" "reconcileRi [] [] = Map.empty"
    by (simp_all add: reconcileEi_def reconcileRi_def)
  from a z have a': "reconcileEi [?ii] [] = Map.empty" by simp
  from b z have b': "reconcileRi [] [?jj] = Map.empty" by simp
  from a' b' c show ?thesis by blast
qed

section \<open>Failed fetches and absent fields\<close>

text \<open>
  C9. If one of the four fetches fails, \<open>main\<close> ends with the error of the first
  failing fetch (in the order running compute, running database, reserved
  compute, reserved database), the same error value, and with no report. If all
  four succeed, \<open>main\<close> ends with a report, whatever the records hold: \<open>main\<close>
  fails exactly when a fetch fails. An absent field is read as the empty string,
  0 or false, and a raw record with every field absent is normalised like any
  other.
\<close>

theorem fetch_failure_aborts_pass:
  "main (Inl e) b c d = Inl e \<and>
   main (Inr ra) (Inl e) c d = Inl e \<and>
   main (Inr ra) (Inr rb) (Inl e) d = Inl e \<and>
   main (Inr ra) (Inr rb) (Inr rc) (Inl e) = Inl e \<and>
   (\<exists>rep. main (Inr ra) (Inr rb) (Inr rc) (Inr rd) = Inr rep) \<and>
   ((\<exists>err. main a b c d = Inl err) \<longleftrightarrow> isl a \<or> isl b \<or> isl c \<or> isl d) \<and>
   toStr None = [] \<and> toInt None = 0 \<and> toBool None = False \<and>
   ec2iToec2ii \<lparr>ec2_Instance.InstanceType = None, VPCID = None, State = None\<rparr> =
     \<lparr>ec2Inst = \<lparr>ec2Inst.Class = [], VPC = False\<rparr>, Count = 1, State = UnknownState\<rparr> \<and>
   ec2riToec2ii \<lparr>ec2_ReservedInstances.InstanceType = None, InstanceCount = None,
                  ProductDescription = None, State = None\<rparr> =
     \<lparr>ec2Inst = \<lparr>ec2Inst.Class = [], VPC = False\<rparr>, Count = 0, State = UnknownState\<rparr> \<and>
   rdsiTordsii \<lparr>rds_DBInstance.DBInstanceClass = None, Engine = None, MultiAZ = None\<rparr> =
     \<lparr>rdsInst = \<lparr>rdsInst.Class = [], Product = [], MultiAZ = False\<rparr>, Count = 1, State = Active\<rparr> \<and>
   rdsriTordsii \<lparr>rds_ReservedDBInstance.DBInstanceClass = None, ProductDescription = None,
                  MultiAZ = None, DBInstanceCount = None, State = None\<rparr> =
     \<lparr>rdsInst = \<lparr>rdsInst.Class = [], Product = [], MultiAZ = False\<rparr>, Count = 0,
      State = UnknownState\<rparr>"
proof -
  have ok: "\<exists>rep. main (Inr ra) (Inr rb) (Inr rc) (Inr rd) = Inr rep"
    by (simp only: main_Inr) blast
  have iff: "(\<exists>err. main a b c d = Inl err) \<longleftrightarrow> isl a \<or> isl b \<or> isl c \<or> isl d"
  proof (cases a)
    case (Inl x)
    then show ?thesis by (simp add: main_Inl)
  next
    case ia: (Inr xa)
    show ?thesis
    proof (cases b)
      case (Inl x)
      with ia show ?thesis by (simp add: main_Inl)
    next
      case ib: (Inr xb)
      show ?thesis
      proof (cases c)
        case (Inl x)
        with ia ib show ?thesis by (simp add: main_Inl)
      next
        case ic: (Inr xc)
        show ?thesis
        proof (cases d)
          case (Inl x)
          with ia ib ic show ?thesis by (simp add: main_Inl)
        next
          case (Inr xd)
          with ia ib ic show ?thesis by (simp add: main_Inr)
        qed
      qed
    qed
  qed
  have dflt: "toStr None = [] \<and> toInt None = 0 \<and> toBool None = False"
    by (simp add: toStr_def toInt_def toBool_def)
  have n1: "ec2iToec2ii \<lparr>ec2_Instance.InstanceType = None, VPCID = None, State = None\<rparr> =
     \<lparr>ec2Inst = \<lparr>ec2Inst.Class = [], VPC = False\<rparr>, Count = 1, State = UnknownState\<rparr>"
    by (simp add: ec2iToec2ii_def toStr_def)
  have n2: "ec2riToec2ii \<lparr>ec2_ReservedInstances.InstanceType = None, InstanceCount = None,
                  ProductDescription = None, State = None\<rparr> =
     \<lparr>ec2Inst = \<lparr>ec2Inst.Class = [], VPC = False\<rparr>, Count = 0, State = UnknownState\<rparr>"
    by (simp add: ec2riToec2ii_def toStr_def toInt_def)
  have n3: "rdsiTordsii \<lparr>rds_DBInstance.DBInstanceClass = None, Engine = None, MultiAZ = None\<rparr> =
     \<lparr>rdsInst = \<lparr>rdsInst.Class = [], Product = [], MultiAZ = False\<rparr>, Count = 1, State = Active\<rparr>"
    by (simp add: rdsiTordsii_def toStr_def toBool_def)
  have n4: "rdsriTordsii \<lparr>rds_ReservedDBInstance.DBInstanceClass = None, ProductDescription = None,
                  MultiAZ = None, DBInstanceCount = None, State = None\<rparr> =
     \<lparr>rdsInst = \<lparr>rdsInst.Class = [], Product = [], MultiAZ = False\<rparr>, Count = 0,
      State = UnknownState\<rparr>"
    by (simp add: rdsriTordsii_def toStr_def toInt_def toBool_def)
  have m1: "main (Inl e) b c d = Inl e" by (rule main_Inl(1))
  have m2: "main (Inr ra) (Inl e) c d = Inl e" by (rule main_Inl(2))
  have m3: "main (Inr ra) (Inr rb) (Inl e) d = Inl e" by (rule main_Inl(3))
  have m4: "main (Inr ra) (Inr rb) (Inr rc) (Inl e) = Inl e" by (rule main_Inl(4))
  from m1 m2 m3 m4 ok iff dflt n1 n2 n3 n4 show ?thesis
    by blast
qed

lemma rdsriTordsii_active:
  assumes "rds_ReservedDBInstance.State s = Some ''active''"
  shows "rdsInstInfo.State (rdsriTordsii s) = Active"
  using assms by (simp add: rdsriTordsii_def Let_def toStr_def)

lemma reconcileRi_pair:
  assumes "rdsInstInfo.State x = Active" and "rdsInstInfo.State y = Active"
    and "rdsInst x = rdsInst y"
  shows "reconcileRi [x] [y] = [rdsInst x \<mapsto> rdsInstInfo.Count x - rdsInstInfo.Count y]"
  using assms by (simp add: reconcileRi_def plusAssign_def minusAssign_def lookup_def)

text \<open>
  C3. Scenario C. A running database record and a reserved database record in
  state "active" with instance count 1 whose class, engine (the \<open>Engine\<close> field of
  the one, the \<open>ProductDescription\<close> field of the other, both stored in
  \<open>Product\<close>) and multi-AZ flag agree have the same key; the net count of that key
  is 0, both database buckets are empty, and \<open>main\<close> on these two records alone
  prints nothing.
\<close>

theorem scenario_C_database_records_cancel:
  assumes "toStr (rds_DBInstance.DBInstanceClass r) = toStr (rds_ReservedDBInstance.DBInstanceClass s)"
    and "toStr (Engine r) = toStr (rds_ReservedDBInstance.ProductDescription s)"
    and "toBool (rds_DBInstance.MultiAZ r) = toBool (rds_ReservedDBInstance.MultiAZ s)"
    and "rds_ReservedDBInstance.State s = Some ''active''"
    and "DBInstanceCount s = Some 1"
  shows "rdsInst (rdsiTordsii r) = rdsInst (rdsriTordsii s) \<and>
         Product (rdsInst (rdsiTordsii r)) = toStr (Engine r) \<and>
         Product (rdsInst (rdsriTordsii s)) = toStr (rds_ReservedDBInstance.ProductDescription s) \<and>
         reconcileRi [rdsiTordsii r] [rdsriTordsii s] = [rdsInst (rdsiTordsii r) \<mapsto> 0] \<and>
         onDemand (reconcileRi [rdsiTordsii r] [rdsriTordsii s]) = Map.empty \<and>
         unusedReservations (reconcileRi [rdsiTordsii r] [rdsriTordsii s]) = Map.empty \<and>
         main (Inr []) (Inr [r]) (Inr []) (Inr [s]) =
           Inr \<lparr>onDemandEC2 = Map.empty, unusedEC2 = Map.empty,
                onDemandRDS = Map.empty, unusedRDS = Map.empty\<rparr>"
proof -
  have k: "rdsInst (rdsiTordsii r) = rdsInst (rdsriTordsii s)"
    using assms(1,2,3) by (simp add: rdsiTordsii_def rdsriTordsii_def Let_def)
  have p1: "Product (rdsInst (rdsiTordsii r)) = toStr (Engine r)"
    by (simp add: rdsiTordsii_def)
  have p2: "Product (rdsInst (rdsriTordsii s)) = toStr (rds_ReservedDBInstance.ProductDescription s)"
    by (simp add: rdsriTordsii_def Let_def)
  have a1: "rdsInstInfo.State (rdsiTordsii r) = Active" "rdsInstInfo.Count (rdsiTordsii r) = 1"
    by (simp_all add: rdsiTordsii_def)
  have a2: "rdsInstInfo.State (rdsriTordsii s) = Active"
    using assms(4) by (rule rdsriTordsii_active)
  have c2: "rdsInstInfo.Count (rdsriTordsii s) = 1"
    using assms(5) by (simp add: rdsriTordsii_def Let_def toInt_def)
  have m: "reconcileRi [rdsiTordsii r] [rdsriTordsii s] = [rdsInst (rdsiTordsii r) \<mapsto> 0]"
    using reconcileRi_pair[OF a1(1) a2 k] a1(2) c2 by simp
  have o: "onDemand [kk \<mapsto> (0::go_int)] = Map.empty" for kk :: rdsInst
    by (rule ext) (simp add: onDemand_def)
  have u: "unusedReservations [kk \<mapsto> (0::go_int)] = Map.empty" for kk :: rdsInst
    by (rule ext) (simp add: unusedReservations_def)
  have e: "reconcileEi [] [] = Map.empty"
    by (simp add: reconcileEi_def)
  have oe: "onDemand (Map.empty :: ec2Inst netmap) = Map.empty"
    by (rule ext) (simp add: onDemand_def)
  have ue: "unusedReservations (Map.empty :: ec2Inst netmap) = Map.empty"
    by (rule ext) (simp add: unusedReservations_def)
  have mn: "main (Inr []) (Inr [r]) (Inr []) (Inr [s]) =
           Inr \<lparr>onDemandEC2 = Map.empty, unusedEC2 = Map.empty,
                onDemandRDS = Map.empty, unusedRDS = Map.empty\<rparr>"
    by (simp add: main_Inr m o u e oe ue)
  from k p1 p2 m o u mn show ?thesis by simp
qed

text \<open>Scenario C with the key \<open>db.m3.large\<close>, \<open>mysql\<close>, multi-AZ.\<close>

theorem scenario_C_database_records_cancel_witness:
  "reconcileRi
     [rdsiTordsii \<lparr>rds_DBInstance.DBInstanceClass = Some ''db.m3.large'', Engine = Some ''mysql'',
                   MultiAZ = Some True\<rparr>]
     [rdsriTordsii \<lparr>rds_ReservedDBInstance.DBInstanceClass = Some ''db.m3.large'',
                    ProductDescription = Some ''mysql'', MultiAZ = Some True,
                    DBInstanceCount = Some 1, State = Some ''active''\<rparr>]
     = [\<lparr>rdsInst.Class = ''db.m3.large'', Product = ''mysql'', MultiAZ = True\<rparr> \<mapsto> 0] \<and>
   onDemand (reconcileRi
     [rdsiTordsii \<lparr>rds_DBInstance.DBInstanceClass = Some ''db.m3.large'', Engine = Some ''mysql'',
                   MultiAZ = Some True\<rparr>]
     [rdsriTordsii \<lparr>rds_ReservedDBInstance.DBInstanceClass = Some ''db.m3.large'',
                    ProductDescription = Some ''mysql'', MultiAZ = Some True,
                    DBInstanceCount = Some 1, State = Some ''active''\<rparr>])
     \<lparr>rdsInst.Class = ''db.m3.large'', Product = ''mysql'', MultiAZ = True\<rparr> = None \<and>
   unusedReservations (reconcileRi
     [rdsiTordsii \<lparr>rds_DBInstance.DBInstanceClass = Some ''db.m3.large'', Engine = Some ''mysql'',
                   MultiAZ = Some True\<rparr>]
     [rdsriTordsii \<lparr>rds_ReservedDBInstance.DBInstanceClass = Some ''db.m3.large'',
                    ProductDescription = Some ''mysql'', MultiAZ = Some True,
                    DBInstanceCount = Some 1, State = Some ''active''\<rparr>])
     \<lparr>rdsInst.Class = ''db.m3.large'', Product = ''mysql'', MultiAZ = True\<rparr> = None"
proof -
  let ?r = "\<lparr>rds_DBInstance.DBInstanceClass = Some ''db.m3.large'', Engine = Some ''mysql'',
             MultiAZ = Some True\<rparr>"
  let ?s = "\<lparr>rds_ReservedDBInstance.DBInstanceClass = Some ''db.m3.large'',
             ProductDescription = Some ''mysql'', MultiAZ = Some True,
             DBInstanceCount = Some 1, State = Some ''active''\<rparr>"
  have h1: "toStr (rds_DBInstance.DBInstanceClass ?r) = toStr (rds_ReservedDBInstance.DBInstanceClass ?s)"
    by (simp add: toStr_def)
  have h2: "toStr (Engine ?r) = toStr (rds_ReservedDBInstance.ProductDescription ?s)"
    by (simp add: toStr_def)
  have h3: "toBool (rds_DBInstance.MultiAZ ?r) = toBool (rds_ReservedDBInstance.MultiAZ ?s)"
    by (simp add: toBool_def)
  have h4: "rds_ReservedDBInstance.State ?s = Some ''active''" by simp
  have h5: "DBInstanceCount ?s = Some 1" by simp
  have k: "rdsInst (rdsiTordsii ?r) = \<lparr>rdsInst.Class = ''db.m3.large'', Product = ''mysql'', MultiAZ = True\<rparr>"
    by (simp add: rdsiTordsii_def toStr_def toBool_def)
  note T = scenario_C_database_records_cancel[OF h1 h2 h3 h4 h5]
  from T have m: "reconcileRi [rdsiTordsii ?r] [rdsriTordsii ?s] = [rdsInst (rdsiTordsii ?r) \<mapsto> 0]"
    by blast
  from T have o: "onDemand (reconcileRi [rdsiTordsii ?r] [rdsriTordsii ?s]) = Map.empty"
    by blast
  from T have u: "unusedReservations (reconcileRi [rdsiTordsii ?r] [rdsriTordsii ?s]) = Map.empty"
    by blast
  show ?thesis
    by (simp only: o u) (simp only: m k simp_thms)
qed

section \<open>Active reservations without a count\<close>

lemma onDemand_touch:
  "onDemand (m(k \<mapsto> lookup m k)) = onDemand m"
proof
  fix x
  show "onDemand (m(k \<mapsto> lookup m k)) x = onDemand m x"
    by (cases "m k") (simp_all add: onDemand_def lookup_def)
qed

lemma unusedReservations_touch:
  "unusedReservations (m(k \<mapsto> lookup m k)) = unusedReservations m"
proof
  fix x
  show "unusedReservations (m(k \<mapsto> lookup m k)) x = unusedReservations m x"
    by (cases "m k") (simp_all add: unusedReservations_def lookup_def)
qed

text \<open>
  C10. A reserved compute record in state "active" whose instance count is absent
  is \<open>Active\<close> with count 0. Its iteration stores the key in the map with the
  value the key had (0 for a new key), so the key is in the map afterwards; the
  two buckets are the same as before the iteration, and in a pass with only this
  record the key has the value 0 and is in neither bucket. The same record with a
  state that is not \<open>Active\<close> is skipped and leaves the map as it is.
\<close>

theorem zero_count_active_reservation:
  assumes "InstanceCount r = None"
    and "ec2_ReservedInstances.State r = Some ''active''"
  shows "ec2InstInfo.State (ec2riToec2ii r) = Active \<and>
         ec2InstInfo.Count (ec2riToec2ii r) = 0 \<and>
         loopReservedEi ei [ec2riToec2ii r] =
           ei(ec2Inst (ec2riToec2ii r) \<mapsto> lookup ei (ec2Inst (ec2riToec2ii r))) \<and>
         ec2Inst (ec2riToec2ii r) \<in> dom (loopReservedEi ei [ec2riToec2ii r]) \<and>
         reconcileEi [] [ec2riToec2ii r] = [ec2Inst (ec2riToec2ii r) \<mapsto> 0] \<and>
         onDemand (loopReservedEi ei [ec2riToec2ii r]) = onDemand ei \<and>
         unusedReservations (loopReservedEi ei [ec2riToec2ii r]) = unusedReservations ei \<and>
         onDemand (reconcileEi [] [ec2riToec2ii r]) k = None \<and>
         unusedReservations (reconcileEi [] [ec2riToec2ii r]) k = None \<and>
         loopReservedEi ei [(ec2riToec2ii r)\<lparr>ec2InstInfo.State := UnknownState\<rparr>] = ei"
proof -
  let ?ii = "ec2riToec2ii r"
  have a: "ec2InstInfo.State ?ii = Active"
    using assms(2) by (simp add: ec2riToec2ii_def Let_def toStr_def)
  have c: "ec2InstInfo.Count ?ii = 0"
    using assms(1) by (simp add: ec2riToec2ii_def Let_def toInt_def)
  have l: "loopReservedEi ei' [?ii] = ei'(ec2Inst ?ii \<mapsto> lookup ei' (ec2Inst ?ii))" for ei'
    using a c by (simp add: minusAssign_def)
  have d: "ec2Inst ?ii \<in> dom (loopReservedEi ei [?ii])"
    by (simp only: l) simp
  have rc: "reconcileEi [] [?ii] = [ec2Inst ?ii \<mapsto> 0]"
    by (simp only: reconcileEi_def loopRunningEi.simps l lookup_empty)
  have o: "onDemand (loopReservedEi ei [?ii]) = onDemand ei"
    by (simp only: l onDemand_touch)
  have u: "unusedReservations (loopReservedEi ei [?ii]) = unusedReservations ei"
    by (simp only: l unusedReservations_touch)
  have o0: "onDemand (reconcileEi [] [?ii]) k = None"
    by (simp only: rc) (simp add: onDemand_def)
  have u0: "unusedReservations (reconcileEi [] [?ii]) k = None"
    by (simp only: rc) (simp add: unusedReservations_def)
  have s: "loopReservedEi ei [?ii\<lparr>ec2InstInfo.State := UnknownState\<rparr>] = ei"
    by simp
  from a c l[of ei] d rc o u o0 u0 s show ?thesis by blast
qed

text \<open>An active reservation in a VPC with no instance count.\<close>

theorem zero_count_active_reservation_witness:
  "reconcileEi []
     [ec2riToec2ii \<lparr>ec2_ReservedInstances.InstanceType = Some ''m3.large'', InstanceCount = None,
                    ProductDescription = Some ''Linux/UNIX (Amazon VPC)'', State = Some ''active''\<rparr>]
     = [\<lparr>ec2Inst.Class = ''m3.large'', VPC = True\<rparr> \<mapsto> 0] \<and>
   onDemand (reconcileEi []
     [ec2riToec2ii \<lparr>ec2_ReservedInstances.InstanceType = Some ''m3.large'', InstanceCount = None,
                    ProductDescription = Some ''Linux/UNIX (Amazon VPC)'', State = Some ''active''\<rparr>])
     \<lparr>ec2Inst.Class = ''m3.large'', VPC = True\<rparr> = None \<and>
   unusedReservations (reconcileEi []
     [ec2riToec2ii \<lparr>ec2_ReservedInstances.InstanceType = Some ''m3.large'', InstanceCount = None,
                    ProductDescription = Some ''Linux/UNIX (Amazon VPC)'', State = Some ''active''\<rparr>])
     \<lparr>ec2Inst.Class = ''m3.large'', VPC = True\<rparr> = None"
proof -
  let ?r = "\<lparr>ec2_ReservedInstances.InstanceType = Some ''m3.large'', InstanceCount = None,
             ProductDescription = Some ''Linux/UNIX (Amazon VPC)'', State = Some ''active''\<rparr>"
  let ?k = "\<lparr>ec2Inst.Class = ''m3.large'', VPC = True\<rparr>"
  have h1: "InstanceCount ?r = None" by simp
  have h2: "ec2_ReservedInstances.State ?r = Some ''active''" by simp
  have k: "ec2Inst (ec2riToec2ii ?r) = ?k"
    by (simp add: ec2riToec2ii_def Let_def toStr_def)
  note T = zero_count_active_reservation[OF h1 h2, where k = ?k and ei = Map.empty]
  from T have m: "reconcileEi [] [ec2riToec2ii ?r] = [ec2Inst (ec2riToec2ii ?r) \<mapsto> 0]"
    by blast
  from T have o: "onDemand (reconcileEi [] [ec2riToec2ii ?r]) ?k = None"
    by blast
  from T have u: "unusedReservations (reconcileEi [] [ec2riToec2ii ?r]) ?k = None"
    by blast
  from m k have m': "reconcileEi [] [ec2riToec2ii ?r] = [?k \<mapsto> 0]"
    by (simp only:)
  from m' o u show ?thesis by blast
qed

end
